theory Spec2Isabelle
  imports Main
begin

section \<open>JavaScript values\<close>

text \<open>
  A request body is parsed JSON, typed \<open>any\<close> by the handlers. Numbers are modelled as
  integers: the handlers only test them for zero (truthiness) and copy them.
\<close>

datatype json =
    JNull
  | JBool bool
  | JNum int
  | JStr string
  | JArr "json list"
  | JObj "(string \<times> json) list"

text \<open>
  A JavaScript value is a JSON value or \<open>undefined\<close> (\<open>None\<close>). An object maps property
  names to values; a property that holds \<open>undefined\<close> and a property that is absent read the
  same (\<open>o.k\<close>, \<open>===\<close> and \<open>res.json\<close> do not tell them apart), so both are \<open>None\<close>.
  The order of the keys of a serialised object is not modelled.
\<close>

type_synonym jsval = "json option"
type_synonym obj = "string \<Rightarrow> json option"

text \<open>Truthiness, as \<open>!x\<close> and \<open>x || y\<close> test it.\<close>

fun truthy :: "jsval \<Rightarrow> bool" where
  "truthy None = False"
| "truthy (Some JNull) = False"
| "truthy (Some (JBool b)) = b"
| "truthy (Some (JNum n)) = (n \<noteq> 0)"
| "truthy (Some (JStr s)) = (s \<noteq> [])"
| "truthy (Some (JArr xs)) = True"
| "truthy (Some (JObj kvs)) = True"

text \<open>\<open>a || b\<close>\<close>

definition or_else :: "jsval \<Rightarrow> jsval \<Rightarrow> jsval" where
  "or_else a b = (if truthy a then a else b)"

text \<open>\<open>{...a, ...b}\<close>: the properties of \<open>b\<close> over those of \<open>a\<close>.\<close>

definition spread :: "obj \<Rightarrow> obj \<Rightarrow> obj" where
  "spread a b = (\<lambda>k. case b k of None \<Rightarrow> a k | Some v \<Rightarrow> Some v)"

subsection \<open>Strings\<close>

text \<open>\<open>Date.now().toString()\<close>: the decimal digits of a number of milliseconds.\<close>

definition digit_char :: "nat \<Rightarrow> char" where
  "digit_char d = char_of (48 + d)"

fun dec :: "nat \<Rightarrow> string" where
  "dec n = (if n < 10 then [digit_char n] else dec (n div 10) @ [digit_char (n mod 10)])"

declare dec.simps [simp del]

text \<open>The number a string of decimal digits denotes.\<close>

definition digit_val :: "char \<Rightarrow> nat" where
  "digit_val c = of_char c - 48"

definition undec :: "string \<Rightarrow> nat" where
  "undec s = foldl (\<lambda>a c. 10 * a + digit_val c) 0 s"

text \<open>\<open>email.split('@')[0]\<close>: the part of a string before its first \<open>@\<close>.\<close>

definition split_at_first :: "string \<Rightarrow> string" where
  "split_at_first s = takeWhile (\<lambda>c. c \<noteq> CHR ''@'') s"

text \<open>
  The two string literals of the source that are written in katakana, given by their
  UTF-8 bytes: the team name a registration without one receives (in English: default
  team), and the status a lead without one receives (in English: lead).
\<close>

definition default_team :: string where
  "default_team =
     [CHR 0xE3, CHR 0x83, CHR 0x87, CHR 0xE3, CHR 0x83, CHR 0x95, CHR 0xE3, CHR 0x82, CHR 0xA9,
      CHR 0xE3, CHR 0x83, CHR 0xAB, CHR 0xE3, CHR 0x83, CHR 0x88, CHR 0xE3, CHR 0x83, CHR 0x81,
      CHR 0xE3, CHR 0x83, CHR 0xBC, CHR 0xE3, CHR 0x83, CHR 0xA0]"

definition lead_status_default :: string where
  "lead_status_default =
     [CHR 0xE3, CHR 0x83, CHR 0xAA, CHR 0xE3, CHR 0x83, CHR 0xBC, CHR 0xE3, CHR 0x83, CHR 0x89]"

subsection \<open>Library functions\<close>

text \<open>
  What the handlers call outside the repository: Unicode lower-casing
  (\<open>String.prototype.toLowerCase\<close>), the ISO rendering of an instant
  (\<open>Date.prototype.toISOString\<close>), bcryptjs and jsonwebtoken. They are parameters of the
  model. \<open>bcrypt_hash salt password\<close> is \<open>await bcrypt.hash(password, 12)\<close> with the salt
  it drew and \<open>bcrypt_compare password hash\<close> is \<open>await bcrypt.compare(password, hash)\<close>;
  \<open>None\<close> is a rejected promise (the handler's \<open>catch\<close> answers 500).
  \<open>jwt_sign claims now\<close> is \<open>jwt.sign(claims, secret, {expiresIn: '30d'})\<close> at the instant
  \<open>now\<close>. Nothing is assumed about them.
\<close>

record env =
  toLowerCase :: "string \<Rightarrow> string"
  toISOString :: "nat \<Rightarrow> string"
  bcrypt_hash :: "string \<Rightarrow> jsval \<Rightarrow> string option"
  bcrypt_compare :: "jsval \<Rightarrow> string \<Rightarrow> bool option"
  jwt_sign :: "obj \<Rightarrow> nat \<Rightarrow> string"

section \<open>Responses\<close>

text \<open>
  One constructor for each message literal of the servers (the literals are Japanese
  sentences; two responses carry the same message exactly when they use the same
  literal).
\<close>

datatype message =
    EmailAndPasswordRequired   \<comment> \<open>400, register and login\<close>
  | EmailAlreadyRegistered     \<comment> \<open>400, register\<close>
  | RegistrationFailed         \<comment> \<open>500, register\<close>
  | RegistrationCompleted      \<comment> \<open>201, register\<close>
  | EmailOrPasswordIncorrect   \<comment> \<open>401, login\<close>
  | LoginFailed                \<comment> \<open>500, login\<close>
  | LoginSucceeded             \<comment> \<open>200, login\<close>
  | TaskNotFound               \<comment> \<open>404, tasks\<close>
  | TaskDeleted                \<comment> \<open>200, tasks\<close>
  | TaskUpdateFailed           \<comment> \<open>500, tasks\<close>
  | TaskDeleteFailed           \<comment> \<open>500, tasks\<close>
  | ProjectUpdateFailed        \<comment> \<open>500, projects\<close>
  | ProjectDeleteFailed        \<comment> \<open>500, projects\<close>
  | LeadUpdateFailed           \<comment> \<open>500, leads\<close>
  | LeadDeleteFailed           \<comment> \<open>500, leads\<close>

text \<open>
  The JSON a handler sends: \<open>{error}\<close>, \<open>{message, user, token}\<close>, an array of objects,
  one object, \<open>{message}\<close>, or nothing (\<open>res.status(204).send()\<close>).
\<close>

datatype body =
    Error message
  | Auth message obj string
  | Items "obj list"
  | Item obj
  | Message message
  | NoContent

datatype response = Resp nat body

section \<open>The in-memory server\<close>

text \<open>
  A handler is a function of the request and the store that returns the response and the
  new store. The resource routes run behind \<open>authenticateToken\<close>, which sets \<open>req.user\<close>
  to the claims of the verified token; the handlers below take \<open>req.user\<close> as an
  argument. A handler reads the clock more than once (\<open>Date.now()\<close>, \<open>new Date()\<close>); the
  model gives each request one clock reading \<open>now\<close>, in milliseconds.
\<close>

text \<open>\<open>req.user\<close> (\<open>AuthenticatedRequest\<close>).\<close>

record identity =
  ru_id :: string
  ru_email :: string
  ru_name :: string
  ru_role :: string
  ru_teamName :: "string option"

text \<open>\<open>req.user?.teamName\<close> and \<open>req.user?.name\<close>\<close>

definition teamName_of :: "identity option \<Rightarrow> jsval" where
  "teamName_of user =
     (case user of None \<Rightarrow> None | Some u \<Rightarrow> map_option JStr (ru_teamName u))"

definition name_of :: "identity option \<Rightarrow> jsval" where
  "name_of user = (case user of None \<Rightarrow> None | Some u \<Rightarrow> Some (JStr (ru_name u)))"

text \<open>
  A stored user (\<open>interface User\<close>). \<open>name\<close> and \<open>teamName\<close> are declared strings but are
  assigned from the request body unchecked, so they hold any JSON value; \<open>teamName\<close> is
  declared optional.
\<close>

record user =
  u_id :: string
  u_email :: string
  u_password :: string
  u_name :: json
  u_teamName :: jsval
  u_role :: string
  u_createdAt :: string

text \<open>
  The four arrays of the server. A task, project or lead is an object: an update spreads
  the request body over it, so it can hold any property.
\<close>

record store =
  users :: "user list"
  tasks :: "obj list"
  projects :: "obj list"
  leads :: "obj list"

definition init_store :: store where
  "init_store = \<lparr>users = [], tasks = [], projects = [], leads = []\<rparr>"

subsection \<open>Tasks\<close>

text \<open>\<open>xs.filter(r => r.teamName === req.user?.teamName)\<close>\<close>

definition team_filter :: "identity option \<Rightarrow> obj list \<Rightarrow> obj list" where
  "team_filter user xs = filter (\<lambda>r. r ''teamName'' = teamName_of user) xs"

definition get_tasks :: "identity option \<Rightarrow> store \<Rightarrow> response" where
  "get_tasks user s = Resp 200 (Items (team_filter user (tasks s)))"

text \<open>
  \<open>POST /api/tasks\<close> at clock reading \<open>now\<close>. Nothing in its \<open>try\<close> block throws, so the
  500 branch has no counterpart here.
\<close>

definition new_task :: "env \<Rightarrow> nat \<Rightarrow> identity option \<Rightarrow> obj \<Rightarrow> obj" where
  "new_task E now user b =
     (\<lambda>k. None)
       (''id'' := Some (JStr (dec now)),
        ''title'' := b ''title'',
        ''description'' := or_else (b ''description'') (Some (JStr [])),
        ''status'' := or_else (b ''status'') (Some (JStr ''pending'')),
        ''priority'' := or_else (b ''priority'') (Some (JStr ''medium'')),
        ''assignee'' := or_else (or_else (b ''assignee'') (name_of user)) (Some (JStr ''Unknown'')),
        ''dueDate'' := or_else (b ''dueDate'') (Some (JStr (toISOString E now))),
        ''teamName'' := or_else (teamName_of user) (Some (JStr ''Unknown'')),
        ''createdBy'' := or_else (name_of user) (Some (JStr ''Unknown'')),
        ''createdAt'' := Some (JStr (toISOString E now)),
        ''updatedAt'' := Some (JStr (toISOString E now)))"

definition post_task :: "env \<Rightarrow> nat \<Rightarrow> identity option \<Rightarrow> obj \<Rightarrow> store \<Rightarrow> response \<times> store" where
  "post_task E now user b s =
     (let task = new_task E now user b
      in (Resp 201 (Item task), s\<lparr>tasks := tasks s @ [task]\<rparr>))"

text \<open>\<open>xs.findIndex(p)\<close>, with \<open>None\<close> for -1.\<close>

fun findIndex :: "('a \<Rightarrow> bool) \<Rightarrow> 'a list \<Rightarrow> nat option" where
  "findIndex p [] = None"
| "findIndex p (x # xs) = (if p x then Some 0 else map_option Suc (findIndex p xs))"

text \<open>\<open>task.id === req.params.id && task.teamName === req.user?.teamName\<close>\<close>

definition owned :: "identity option \<Rightarrow> string \<Rightarrow> obj \<Rightarrow> bool" where
  "owned user pid r \<longleftrightarrow> r ''id'' = Some (JStr pid) \<and> r ''teamName'' = teamName_of user"

definition put_task :: "env \<Rightarrow> nat \<Rightarrow> identity option \<Rightarrow> string \<Rightarrow> obj \<Rightarrow> store \<Rightarrow> response \<times> store" where
  "put_task E now user pid b s =
     (case findIndex (owned user pid) (tasks s) of
        None \<Rightarrow> (Resp 404 (Error TaskNotFound), s)
      | Some i \<Rightarrow>
          (let task = (spread (tasks s ! i) b)(''updatedAt'' := Some (JStr (toISOString E now)))
           in (Resp 200 (Item task), s\<lparr>tasks := (tasks s)[i := task]\<rparr>)))"

text \<open>\<open>tasks.splice(i, 1)\<close> removes the element at index \<open>i\<close>.\<close>

definition delete_task :: "identity option \<Rightarrow> string \<Rightarrow> store \<Rightarrow> response \<times> store" where
  "delete_task user pid s =
     (case findIndex (owned user pid) (tasks s) of
        None \<Rightarrow> (Resp 404 (Error TaskNotFound), s)
      | Some i \<Rightarrow> (Resp 200 (Message TaskDeleted), s\<lparr>tasks := take i (tasks s) @ drop (Suc i) (tasks s)\<rparr>))"

subsection \<open>Projects and leads\<close>

text \<open>The in-memory server has no update or delete route for projects and leads.\<close>

definition get_projects :: "identity option \<Rightarrow> store \<Rightarrow> response" where
  "get_projects user s = Resp 200 (Items (team_filter user (projects s)))"

definition new_project :: "env \<Rightarrow> nat \<Rightarrow> identity option \<Rightarrow> obj \<Rightarrow> obj" where
  "new_project E now user b =
     (\<lambda>k. None)
       (''id'' := Some (JStr (dec now)),
        ''name'' := b ''name'',
        ''description'' := or_else (b ''description'') (Some (JStr [])),
        ''client'' := or_else (b ''client'') (Some (JStr [])),
        ''status'' := or_else (b ''status'') (Some (JStr ''planning'')),
        ''priority'' := or_else (b ''priority'') (Some (JStr ''medium'')),
        ''progress'' := or_else (b ''progress'') (Some (JNum 0)),
        ''teamName'' := or_else (teamName_of user) (Some (JStr ''Unknown'')),
        ''createdBy'' := or_else (name_of user) (Some (JStr ''Unknown'')),
        ''createdAt'' := Some (JStr (toISOString E now)),
        ''updatedAt'' := Some (JStr (toISOString E now)))"

definition post_project :: "env \<Rightarrow> nat \<Rightarrow> identity option \<Rightarrow> obj \<Rightarrow> store \<Rightarrow> response \<times> store" where
  "post_project E now user b s =
     (let project = new_project E now user b
      in (Resp 201 (Item project), s\<lparr>projects := projects s @ [project]\<rparr>))"

definition get_leads :: "identity option \<Rightarrow> store \<Rightarrow> response" where
  "get_leads user s = Resp 200 (Items (team_filter user (leads s)))"

definition new_lead :: "env \<Rightarrow> nat \<Rightarrow> identity option \<Rightarrow> obj \<Rightarrow> obj" where
  "new_lead E now user b =
     (\<lambda>k. None)
       (''id'' := Some (JStr (dec now)),
        ''company'' := b ''company'',
        ''contact'' := b ''contact'',
        ''contactEmail'' := or_else (b ''contactEmail'') (Some (JStr [])),
        ''status'' := or_else (b ''status'') (Some (JStr lead_status_default)),
        ''value'' := or_else (b ''value'') (Some (JNum 0)),
        ''probability'' := or_else (b ''probability'') (Some (JNum 50)),
        ''teamName'' := or_else (teamName_of user) (Some (JStr ''Unknown'')),
        ''createdBy'' := or_else (name_of user) (Some (JStr ''Unknown'')),
        ''createdAt'' := Some (JStr (toISOString E now)),
        ''updatedAt'' := Some (JStr (toISOString E now)))"

definition post_lead :: "env \<Rightarrow> nat \<Rightarrow> identity option \<Rightarrow> obj \<Rightarrow> store \<Rightarrow> response \<times> store" where
  "post_lead E now user b s =
     (let lead = new_lead E now user b
      in (Resp 201 (Item lead), s\<lparr>leads := leads s @ [lead]\<rparr>))"

text \<open>The array a list response carries (empty for any other response).\<close>

fun listed :: "response \<Rightarrow> obj list" where
  "listed (Resp st (Items xs)) = xs"
| "listed (Resp st other) = []"

text \<open>The status of a response.\<close>

fun status :: "response \<Rightarrow> nat" where
  "status (Resp st b) = st"

text \<open>
  The entity fields of a task, a project and a lead (every property the create handler
  takes from the body), and the round trip of a field set \<open>F\<close> through a list result:
  some listed record has, for every entity field that \<open>F\<close> supplies, the value \<open>F\<close> gives it.
\<close>

definition task_fields :: "string list" where
  "task_fields = [''title'', ''description'', ''status'', ''priority'', ''assignee'', ''dueDate'']"

definition project_fields :: "string list" where
  "project_fields = [''name'', ''description'', ''client'', ''status'', ''priority'', ''progress'']"

definition lead_fields :: "string list" where
  "lead_fields = [''company'', ''contact'', ''contactEmail'', ''status'', ''value'', ''probability'']"

definition round_trip :: "string list \<Rightarrow> obj \<Rightarrow> obj list \<Rightarrow> bool" where
  "round_trip keys F xs \<longleftrightarrow> list_ex (\<lambda>r. list_all (\<lambda>k. F k \<noteq> None \<longrightarrow> r k = F k) keys) xs"

subsection \<open>Registration and login\<close>

text \<open>\<open>a || d\<close> where \<open>d\<close> is not \<open>undefined\<close>.\<close>

fun or_json :: "jsval \<Rightarrow> json \<Rightarrow> json" where
  "or_json None d = d"
| "or_json (Some v) d = (if truthy (Some v) then v else d)"

text \<open>
  The object literal \<open>{id, email, name, role, teamName}\<close> of a user, written four times in
  the source: as the token's claims and as the \<open>user\<close> of the response, in register and in
  login.
\<close>

definition user_claims :: "user \<Rightarrow> obj" where
  "user_claims u =
     (\<lambda>k. None)
       (''id'' := Some (JStr (u_id u)),
        ''email'' := Some (JStr (u_email u)),
        ''name'' := Some (u_name u),
        ''role'' := Some (JStr (u_role u)),
        ''teamName'' := u_teamName u)"

text \<open>The user record the register handler builds from a string email and a hash.\<close>

definition new_user :: "env \<Rightarrow> nat \<Rightarrow> string \<Rightarrow> string \<Rightarrow> obj \<Rightarrow> user" where
  "new_user E now email hashed b =
     \<lparr>u_id = dec now,
      u_email = toLowerCase E email,
      u_password = hashed,
      u_name = or_json (b ''name'') (JStr (split_at_first email)),
      u_teamName = Some (or_json (b ''teamName'') (JStr default_team)),
      u_role = ''user'',
      u_createdAt = toISOString E now\<rparr>"

text \<open>
  \<open>POST /api/auth/register\<close> at clock reading \<open>now\<close>, with the salt bcrypt draws. An email
  that is truthy but not a string has no \<open>toLowerCase\<close>: the call throws, in the callback
  of \<open>users.find\<close> or, when no user is stored yet, in the user literal after the hash;
  the \<open>catch\<close> answers 500 either way, before \<open>users.push\<close>.
\<close>

definition register :: "env \<Rightarrow> nat \<Rightarrow> string \<Rightarrow> obj \<Rightarrow> store \<Rightarrow> response \<times> store" where
  "register E now salt b s =
     (if \<not> truthy (b ''email'') \<or> \<not> truthy (b ''password'')
      then (Resp 400 (Error EmailAndPasswordRequired), s)
      else
        (case b ''email'' of
           Some (JStr email) \<Rightarrow>
             (case find (\<lambda>u. u_email u = toLowerCase E email) (users s) of
                Some existing \<Rightarrow> (Resp 400 (Error EmailAlreadyRegistered), s)
              | None \<Rightarrow>
                  (case bcrypt_hash E salt (b ''password'') of
                     None \<Rightarrow> (Resp 500 (Error RegistrationFailed), s)
                   | Some hashed \<Rightarrow>
                       (let usr = new_user E now email hashed b
                        in (Resp 201 (Auth RegistrationCompleted (user_claims usr)
                                       (jwt_sign E (user_claims usr) now)),
                            s\<lparr>users := users s @ [usr]\<rparr>))))
         | _ \<Rightarrow> (Resp 500 (Error RegistrationFailed), s)))"

text \<open>
  \<open>POST /api/auth/login\<close>. With a truthy email that is not a string, the callback of
  \<open>users.find\<close> throws on the first stored user (500); with no stored user it never runs
  and the handler answers 401.
\<close>

definition login :: "env \<Rightarrow> nat \<Rightarrow> obj \<Rightarrow> store \<Rightarrow> response" where
  "login E now b s =
     (if \<not> truthy (b ''email'') \<or> \<not> truthy (b ''password'')
      then Resp 400 (Error EmailAndPasswordRequired)
      else
        (case b ''email'' of
           Some (JStr email) \<Rightarrow>
             (case find (\<lambda>u. u_email u = toLowerCase E email) (users s) of
                None \<Rightarrow> Resp 401 (Error EmailOrPasswordIncorrect)
              | Some u \<Rightarrow>
                  (case bcrypt_compare E (b ''password'') (u_password u) of
                     None \<Rightarrow> Resp 500 (Error LoginFailed)
                   | Some False \<Rightarrow> Resp 401 (Error EmailOrPasswordIncorrect)
                   | Some True \<Rightarrow>
                       Resp 200 (Auth LoginSucceeded (user_claims u)
                                  (jwt_sign E (user_claims u) now))))
         | _ \<Rightarrow>
             (if users s = [] then Resp 401 (Error EmailOrPasswordIncorrect)
              else Resp 500 (Error LoginFailed))))"


text \<open>A run of register requests: each with its clock reading, salt and body.\<close>

record reg_request =
  rq_now :: nat
  rq_salt :: string
  rq_body :: obj

fun register_all :: "env \<Rightarrow> reg_request list \<Rightarrow> store \<Rightarrow> store" where
  "register_all E [] s = s"
| "register_all E (q # qs) s =
     register_all E qs (snd (register E (rq_now q) (rq_salt q) (rq_body q) s))"

subsection \<open>The states the server reaches\<close>

text \<open>
  The server starts with four empty arrays; the handlers above are the only code that
  writes them.
\<close>

inductive reachable :: "env \<Rightarrow> store \<Rightarrow> bool" for E :: env where
  start: "reachable E init_store"
| by_register: "reachable E s \<Longrightarrow> reachable E (snd (register E now salt b s))"
| by_post_task: "reachable E s \<Longrightarrow> reachable E (snd (post_task E now user b s))"
| by_put_task: "reachable E s \<Longrightarrow> reachable E (snd (put_task E now user pid b s))"
| by_delete_task: "reachable E s \<Longrightarrow> reachable E (snd (delete_task user pid s))"
| by_post_project: "reachable E s \<Longrightarrow> reachable E (snd (post_project E now user b s))"
| by_post_lead: "reachable E s \<Longrightarrow> reachable E (snd (post_lead E now user b s))"

text \<open>A record is stamped when it has a \<open>teamName\<close>.\<close>

definition stamped :: "obj \<Rightarrow> bool" where
  "stamped r \<longleftrightarrow> r ''teamName'' \<noteq> None"

definition all_stamped :: "store \<Rightarrow> bool" where
  "all_stamped s \<longleftrightarrow>
     list_all stamped (tasks s) \<and> list_all stamped (projects s) \<and> list_all stamped (leads s)"

section \<open>The Prisma-backed server\<close>

text \<open>
  Modelled from the spec: the Prisma schema is not among the sources. A row of the task,
  project or lead table has the columns the handlers name (\<open>id\<close> in \<open>where\<close>, \<open>userId\<close> in
  \<open>data\<close>, \<open>createdAt\<close> in \<open>orderBy\<close>, held as a number of milliseconds) and its entity
  columns as an object; a row of the user table has an \<open>id\<close> and the \<open>teamName\<close> that
  \<open>where: {user: {teamName}}\<close> reads through the relation \<open>user\<close>.
\<close>

record puser =
  pu_id :: string
  pu_teamName :: "string option"

record row =
  r_id :: string
  r_userId :: string
  r_createdAt :: nat
  r_cols :: obj

record db =
  db_users :: "puser list"
  db_tasks :: "row list"
  db_projects :: "row list"
  db_leads :: "row list"

datatype pbody =
    PError message
  | PRows "row list"
  | PRow row
  | PNoContent

datatype presponse = PResp nat pbody

text \<open>The team name of the user a row belongs to (the relation \<open>user\<close>).\<close>

definition team_of_row :: "puser list \<Rightarrow> row \<Rightarrow> string option" where
  "team_of_row us r =
     (case find (\<lambda>u. pu_id u = r_userId r) us of None \<Rightarrow> None | Some u \<Rightarrow> pu_teamName u)"

text \<open>
  \<open>findMany({where: {user: {teamName: T}}, orderBy: {createdAt: 'desc'}})\<close>: the rows of
  the team, latest \<open>createdAt\<close> first.
\<close>

definition findMany_team :: "puser list \<Rightarrow> string \<Rightarrow> row list \<Rightarrow> row list" where
  "findMany_team us T rows =
     rev (sort_key r_createdAt (filter (\<lambda>r. team_of_row us r = Some T) rows))"

text \<open>
  \<open>update({where: {id}, data})\<close> and \<open>delete({where: {id}})\<close>: the client throws when no row
  has the id. How \<open>data\<close> changes the columns of a row, and which \<open>data\<close> the client refuses,
  depends on the schema: it is the parameter \<open>upd\<close> (\<open>None\<close> when the client refuses).
\<close>

definition prisma_update ::
  "(obj \<Rightarrow> row \<Rightarrow> row option) \<Rightarrow> string \<Rightarrow> obj \<Rightarrow> row list \<Rightarrow> (row \<times> row list) option" where
  "prisma_update upd pid data rows =
     (case findIndex (\<lambda>r. r_id r = pid) rows of
        None \<Rightarrow> None
      | Some i \<Rightarrow>
          (case upd data (rows ! i) of
             None \<Rightarrow> None
           | Some r \<Rightarrow> Some (r, rows[i := r])))"

definition prisma_delete :: "string \<Rightarrow> row list \<Rightarrow> row list option" where
  "prisma_delete pid rows =
     (case findIndex (\<lambda>r. r_id r = pid) rows of
        None \<Rightarrow> None
      | Some i \<Rightarrow> Some (take i rows @ drop (Suc i) rows))"

text \<open>
  The list handlers answer \<open>[]\<close> when \<open>!req.user?.teamName\<close>. (Their 500 branch answers a
  failure of the database, which is outside the model.)
\<close>

definition prisma_list :: "identity option \<Rightarrow> puser list \<Rightarrow> row list \<Rightarrow> presponse" where
  "prisma_list user us rows =
     (if \<not> truthy (teamName_of user) then PResp 200 (PRows [])
      else
        (case user of
           None \<Rightarrow> PResp 200 (PRows [])
         | Some u \<Rightarrow>
             (case ru_teamName u of
                None \<Rightarrow> PResp 200 (PRows [])
              | Some T \<Rightarrow> PResp 200 (PRows (findMany_team us T rows)))))"

definition prisma_get_tasks :: "identity option \<Rightarrow> db \<Rightarrow> presponse" where
  "prisma_get_tasks user d = prisma_list user (db_users d) (db_tasks d)"

definition prisma_get_projects :: "identity option \<Rightarrow> db \<Rightarrow> presponse" where
  "prisma_get_projects user d = prisma_list user (db_users d) (db_projects d)"

definition prisma_get_leads :: "identity option \<Rightarrow> db \<Rightarrow> presponse" where
  "prisma_get_leads user d = prisma_list user (db_users d) (db_leads d)"

text \<open>
  The update and delete handlers. The identity is an argument because the routes run
  behind \<open>authenticateToken\<close>; the handlers do not read \<open>req.user\<close>.
\<close>

definition prisma_put_task ::
  "(obj \<Rightarrow> row \<Rightarrow> row option) \<Rightarrow> identity option \<Rightarrow> string \<Rightarrow> obj \<Rightarrow> db \<Rightarrow> presponse \<times> db" where
  "prisma_put_task upd user pid b d =
     (case prisma_update upd pid b (db_tasks d) of
        None \<Rightarrow> (PResp 500 (PError TaskUpdateFailed), d)
      | Some (r, rows) \<Rightarrow> (PResp 200 (PRow r), d\<lparr>db_tasks := rows\<rparr>))"

definition prisma_delete_task :: "identity option \<Rightarrow> string \<Rightarrow> db \<Rightarrow> presponse \<times> db" where
  "prisma_delete_task user pid d =
     (case prisma_delete pid (db_tasks d) of
        None \<Rightarrow> (PResp 500 (PError TaskDeleteFailed), d)
      | Some rows \<Rightarrow> (PResp 204 PNoContent, d\<lparr>db_tasks := rows\<rparr>))"

definition prisma_put_project ::
  "(obj \<Rightarrow> row \<Rightarrow> row option) \<Rightarrow> identity option \<Rightarrow> string \<Rightarrow> obj \<Rightarrow> db \<Rightarrow> presponse \<times> db" where
  "prisma_put_project upd user pid b d =
     (case prisma_update upd pid b (db_projects d) of
        None \<Rightarrow> (PResp 500 (PError ProjectUpdateFailed), d)
      | Some (r, rows) \<Rightarrow> (PResp 200 (PRow r), d\<lparr>db_projects := rows\<rparr>))"

definition prisma_delete_project :: "identity option \<Rightarrow> string \<Rightarrow> db \<Rightarrow> presponse \<times> db" where
  "prisma_delete_project user pid d =
     (case prisma_delete pid (db_projects d) of
        None \<Rightarrow> (PResp 500 (PError ProjectDeleteFailed), d)
      | Some rows \<Rightarrow> (PResp 204 PNoContent, d\<lparr>db_projects := rows\<rparr>))"

definition prisma_put_lead ::
  "(obj \<Rightarrow> row \<Rightarrow> row option) \<Rightarrow> identity option \<Rightarrow> string \<Rightarrow> obj \<Rightarrow> db \<Rightarrow> presponse \<times> db" where
  "prisma_put_lead upd user pid b d =
     (case prisma_update upd pid b (db_leads d) of
        None \<Rightarrow> (PResp 500 (PError LeadUpdateFailed), d)
      | Some (r, rows) \<Rightarrow> (PResp 200 (PRow r), d\<lparr>db_leads := rows\<rparr>))"

definition prisma_delete_lead :: "identity option \<Rightarrow> string \<Rightarrow> db \<Rightarrow> presponse \<times> db" where
  "prisma_delete_lead user pid d =
     (case prisma_delete pid (db_leads d) of
        None \<Rightarrow> (PResp 500 (PError LeadDeleteFailed), d)
      | Some rows \<Rightarrow> (PResp 204 PNoContent, d\<lparr>db_leads := rows\<rparr>))"

text \<open>The rows a list response carries.\<close>

fun plisted :: "presponse \<Rightarrow> row list" where
  "plisted (PResp st (PRows xs)) = xs"
| "plisted (PResp st other) = []"

subsection \<open>Identities and examples\<close>

text \<open>
  An identity carries the team name \<open>T\<close>: \<open>req.user.teamName\<close> is the string \<open>T\<close>, and it is
  truthy. (The handlers treat an empty team name like a missing one.)
\<close>

definition in_team :: "identity option \<Rightarrow> string \<Rightarrow> bool" where
  "in_team user T \<longleftrightarrow> teamName_of user = Some (JStr T) \<and> T \<noteq> []"

text \<open>
  One instance of the library functions and three identities (carol has no team), for
  the examples below. The instance lower-cases ASCII letters; its hash and token are
  stand-ins. As in bcryptjs, its hash and its comparison fail (a rejected promise) on an
  argument that is not a string.
\<close>

definition ascii_lower :: "char \<Rightarrow> char" where
  "ascii_lower c =
     (let n = of_char c :: nat in if 65 \<le> n \<and> n \<le> 90 then char_of (n + 32) else c)"

definition stub_env :: env where
  "stub_env =
     \<lparr>toLowerCase = map ascii_lower,
      toISOString = dec,
      bcrypt_hash = (\<lambda>salt pw. case pw of Some (JStr p) \<Rightarrow> Some (salt @ p) | _ \<Rightarrow> None),
      bcrypt_compare =
        (\<lambda>pw h. case pw of Some (JStr p) \<Rightarrow> Some (drop (length h - length p) h = p) | _ \<Rightarrow> None),
      jwt_sign = (\<lambda>claims now. dec now)\<rparr>"

definition alice :: identity where
  "alice = \<lparr>ru_id = ''1'', ru_email = ''a@x.com'', ru_name = ''a'', ru_role = ''user'',
            ru_teamName = Some ''Sales''\<rparr>"

definition carol :: identity where
  "carol = \<lparr>ru_id = ''3'', ru_email = ''c@x.com'', ru_name = ''c'', ru_role = ''user'',
            ru_teamName = None\<rparr>"

definition bob :: identity where
  "bob = \<lparr>ru_id = ''2'', ru_email = ''b@x.com'', ru_name = ''b'', ru_role = ''user'',
          ru_teamName = Some ''Ops''\<rparr>"

text \<open>
  Field sets for a create: a lead with probability 0, a task with an empty status, a task
  with the status \<open>done\<close>.
\<close>

definition cold_lead :: obj where
  "cold_lead = (\<lambda>k. None)(''company'' := Some (JStr ''Acme''), ''contact'' := Some (JStr ''Ann''),
                            ''probability'' := Some (JNum 0))"

definition blank_status :: obj where
  "blank_status = (\<lambda>k. None)(''title'' := Some (JStr ''Follow up''), ''status'' := Some (JStr ''''))"

definition done_task :: obj where
  "done_task = (\<lambda>k. None)(''title'' := Some (JStr ''Follow up''), ''status'' := Some (JStr ''done''))"

text \<open>Two request bodies.\<close>

definition follow_up :: obj where
  "follow_up = (\<lambda>k. None)(''title'' := Some (JStr ''Follow up''))"

definition to_ops :: obj where
  "to_ops = (\<lambda>k. None)(''teamName'' := Some (JStr ''Ops''))"

text \<open>
  Request bodies for register and login, and the user that registering \<open>reg_a\<close> at clock
  reading 1000 with the salt \<open>salt\<close> stores.
\<close>

definition reg_a :: obj where
  "reg_a = (\<lambda>k. None)(''email'' := Some (JStr ''a@x.com''), ''password'' := Some (JStr ''pw123456''),
                        ''teamName'' := Some (JStr ''Sales''))"

definition reg_A :: obj where
  "reg_A = (\<lambda>k. None)(''email'' := Some (JStr ''A@x.com''), ''password'' := Some (JStr ''other''))"

definition login_z :: obj where
  "login_z = (\<lambda>k. None)(''email'' := Some (JStr ''z@x.com''), ''password'' := Some (JStr ''pw123456''))"

definition login_a_wrong :: obj where
  "login_a_wrong = (\<lambda>k. None)(''email'' := Some (JStr ''a@x.com''), ''password'' := Some (JStr ''wrong''))"

definition reg_b :: obj where
  "reg_b = (\<lambda>k. None)(''email'' := Some (JStr ''b@x.com''), ''password'' := Some (JStr ''pw654321''),
                        ''teamName'' := Some (JStr ''Ops''))"


definition login_z_number :: obj where
  "login_z_number = (\<lambda>k. None)(''email'' := Some (JStr ''z@x.com''), ''password'' := Some (JNum 12345))"

definition login_a_number :: obj where
  "login_a_number = (\<lambda>k. None)(''email'' := Some (JStr ''a@x.com''), ''password'' := Some (JNum 12345))"

definition user_a :: user where
  "user_a = new_user stub_env 1000 ''a@x.com'' ''saltpw123456'' reg_a"

text \<open>
  A database with one user in each of two teams and one task of the first user, and one
  way a client could apply \<open>data\<close>: spreading it over the entity columns.
\<close>

definition spread_cols :: "obj \<Rightarrow> row \<Rightarrow> row option" where
  "spread_cols data r = Some (r\<lparr>r_cols := spread (r_cols r) data\<rparr>)"

definition sales_task :: row where
  "sales_task = \<lparr>r_id = ''t1'', r_userId = ''1'', r_createdAt = 1000,
                 r_cols = (\<lambda>k. None)(''title'' := Some (JStr ''Follow up''))\<rparr>"

definition demo_db :: db where
  "demo_db =
     \<lparr>db_users = [\<lparr>pu_id = ''1'', pu_teamName = Some ''Sales''\<rparr>,
                  \<lparr>pu_id = ''2'', pu_teamName = Some ''Ops''\<rparr>],
      db_tasks = [sales_task], db_projects = [], db_leads = []\<rparr>"

text \<open>The same database with a second, later task of the same user.\<close>

definition later_task :: row where
  "later_task = \<lparr>r_id = ''t2'', r_userId = ''1'', r_createdAt = 2000,
                 r_cols = (\<lambda>k. None)(''title'' := Some (JStr ''Call back''))\<rparr>"

definition demo_db2 :: db where
  "demo_db2 = demo_db\<lparr>db_tasks := [sales_task, later_task]\<rparr>"

section \<open>Team isolation of reads\<close>

lemma or_else_in_team: "in_team user T \<Longrightarrow> or_else (teamName_of user) d = Some (JStr T)"
  by (simp add: in_team_def or_else_def)

lemma in_team_alice: "in_team (Some alice) ''Sales''"
  by (simp add: in_team_def teamName_of_def alice_def)

lemma in_team_bob: "in_team (Some bob) ''Ops''"
  by (simp add: in_team_def teamName_of_def bob_def)

text \<open>
  For an identity that carries the team name \<open>T1\<close>, every task, project and lead that the
  list handlers return has \<open>teamName\<close> equal to \<open>T1\<close>; and a record as a create by this
  identity returns and stores it is in no list result for an identity that carries
  another team name \<open>T2\<close>. (This is about the record as created: an update can change
  its team name, see below.)
\<close>

lemma list_results_own_team:
  assumes "in_team user1 T1" and "in_team user2 T2" and "T1 \<noteq> T2"
  shows "(\<forall>r\<in>set (listed (get_tasks user1 s)). r ''teamName'' = Some (JStr T1))
       \<and> (\<forall>r\<in>set (listed (get_projects user1 s)). r ''teamName'' = Some (JStr T1))
       \<and> (\<forall>r\<in>set (listed (get_leads user1 s)). r ''teamName'' = Some (JStr T1))
       \<and> (\<forall>r s1. post_task E now user1 b s0 = (Resp 201 (Item r), s1)
             \<longrightarrow> r \<in> set (tasks s1) \<and> r \<notin> set (listed (get_tasks user2 s)))
       \<and> (\<forall>r s1. post_project E now user1 b s0 = (Resp 201 (Item r), s1)
             \<longrightarrow> r \<in> set (projects s1) \<and> r \<notin> set (listed (get_projects user2 s)))
       \<and> (\<forall>r s1. post_lead E now user1 b s0 = (Resp 201 (Item r), s1)
             \<longrightarrow> r \<in> set (leads s1) \<and> r \<notin> set (listed (get_leads user2 s)))"
proof -
  have own: "teamName_of user1 = Some (JStr T1)" and other: "teamName_of user2 = Some (JStr T2)"
    using assms by (simp_all add: in_team_def)
  have lists: "\<And>xs r. r \<in> set (team_filter user1 xs) \<Longrightarrow> r ''teamName'' = Some (JStr T1)"
    using own by (simp add: team_filter_def)
  have hidden: "r \<notin> set (team_filter user2 xs)" if "r ''teamName'' = Some (JStr T1)" for xs r
    using that other \<open>T1 \<noteq> T2\<close> by (simp add: team_filter_def)
  have stamp: "or_else (teamName_of user1) (Some (JStr ''Unknown'')) = Some (JStr T1)"
    using assms(1) by (rule or_else_in_team)
  have t: "new_task E now user1 b ''teamName'' = Some (JStr T1)"
    using stamp by (simp add: new_task_def)
  have p: "new_project E now user1 b ''teamName'' = Some (JStr T1)"
    using stamp by (simp add: new_project_def)
  have l: "new_lead E now user1 b ''teamName'' = Some (JStr T1)"
    using stamp by (simp add: new_lead_def)
  have c1: "\<forall>r\<in>set (listed (get_tasks user1 s)). r ''teamName'' = Some (JStr T1)"
    using lists by (simp add: get_tasks_def)
  have c2: "\<forall>r\<in>set (listed (get_projects user1 s)). r ''teamName'' = Some (JStr T1)"
    using lists by (simp add: get_projects_def)
  have c3: "\<forall>r\<in>set (listed (get_leads user1 s)). r ''teamName'' = Some (JStr T1)"
    using lists by (simp add: get_leads_def)
  have c4: "\<forall>r s1. post_task E now user1 b s0 = (Resp 201 (Item r), s1)
             \<longrightarrow> r \<in> set (tasks s1) \<and> r \<notin> set (listed (get_tasks user2 s))"
    using hidden[of "new_task E now user1 b", OF t]
    by (auto simp: post_task_def get_tasks_def Let_def)
  have c5: "\<forall>r s1. post_project E now user1 b s0 = (Resp 201 (Item r), s1)
             \<longrightarrow> r \<in> set (projects s1) \<and> r \<notin> set (listed (get_projects user2 s))"
    using hidden[of "new_project E now user1 b", OF p]
    by (auto simp: post_project_def get_projects_def Let_def)
  have c6: "\<forall>r s1. post_lead E now user1 b s0 = (Resp 201 (Item r), s1)
             \<longrightarrow> r \<in> set (leads s1) \<and> r \<notin> set (listed (get_leads user2 s))"
    using hidden[of "new_lead E now user1 b", OF l]
    by (auto simp: post_lead_def get_leads_def Let_def)
  show ?thesis
    using c1 c2 c3 c4 c5 c6 by blast
qed

text \<open>
  At a concrete input: the task that alice (team Sales) creates in the empty store is
  stored, and it is not in the list result of bob (team Ops).
\<close>

lemma list_results_own_team_example:
  "in_team (Some alice) ''Sales'' \<and> in_team (Some bob) ''Ops'' \<and> ''Sales'' \<noteq> ''Ops''
   \<and> new_task stub_env 1000 (Some alice) (\<lambda>k. None)
         \<in> set (tasks (snd (post_task stub_env 1000 (Some alice) (\<lambda>k. None) init_store)))
   \<and> new_task stub_env 1000 (Some alice) (\<lambda>k. None)
         \<notin> set (listed (get_tasks (Some bob)
                   (snd (post_task stub_env 1000 (Some alice) (\<lambda>k. None) init_store))))"
proof -
  let ?r = "new_task stub_env 1000 (Some alice) (\<lambda>k. None)"
  let ?s1 = "snd (post_task stub_env 1000 (Some alice) (\<lambda>k. None) init_store)"
  have c: "''Sales'' \<noteq> ''Ops''" by simp
  have post: "post_task stub_env 1000 (Some alice) (\<lambda>k. None) init_store = (Resp 201 (Item ?r), ?s1)"
    by (simp add: post_task_def Let_def)
  have "\<forall>r s1. post_task stub_env 1000 (Some alice) (\<lambda>k. None) init_store = (Resp 201 (Item r), s1)
          \<longrightarrow> r \<in> set (tasks s1) \<and> r \<notin> set (listed (get_tasks (Some bob) ?s1))"
    using list_results_own_team [OF in_team_alice in_team_bob c, of ?s1 stub_env 1000 "\<lambda>k. None" init_store]
    by blast
  then have "?r \<in> set (tasks ?s1) \<and> ?r \<notin> set (listed (get_tasks (Some bob) ?s1))"
    using post by blast
  then show ?thesis using in_team_alice in_team_bob c by blast
qed

lemma new_task_reads:
  "new_task E now user b ''id'' = Some (JStr (dec now))"
  "new_task E now user b ''teamName'' = or_else (teamName_of user) (Some (JStr ''Unknown''))"
  by (simp_all add: new_task_def)

lemma teamName_of_alice: "teamName_of (Some alice) = Some (JStr ''Sales'')"
  by (simp add: teamName_of_def alice_def)

lemma teamName_of_bob: "teamName_of (Some bob) = Some (JStr ''Ops'')"
  by (simp add: teamName_of_def bob_def)

text \<open>
  C1. In the in-memory server a task created by alice (team Sales) does appear in a list
  result of bob (team Ops): alice creates the task at clock reading 1000 and then updates
  it with the body \<open>{teamName: "Ops"}\<close>. In the state reached, bob's list result is that
  one task, with the id, title, creator and creation time it was created with. The claim
  says a resource created under one team never appears in the list result of another.
\<close>

theorem C1_task_crosses_teams:
  "in_team (Some alice) ''Sales'' \<and> in_team (Some bob) ''Ops''
   \<and> fst (post_task stub_env 1000 (Some alice) follow_up init_store)
       = Resp 201 (Item (new_task stub_env 1000 (Some alice) follow_up))
   \<and> new_task stub_env 1000 (Some alice) follow_up ''id'' = Some (JStr (dec 1000))
   \<and> new_task stub_env 1000 (Some alice) follow_up ''teamName'' = Some (JStr ''Sales'')
   \<and> reachable stub_env
        (snd (put_task stub_env 2000 (Some alice) (dec 1000) to_ops
               (snd (post_task stub_env 1000 (Some alice) follow_up init_store))))
   \<and> map (\<lambda>r. (r ''id'', r ''title'', r ''createdBy'', r ''createdAt''))
        (listed (get_tasks (Some bob)
           (snd (put_task stub_env 2000 (Some alice) (dec 1000) to_ops
                  (snd (post_task stub_env 1000 (Some alice) follow_up init_store))))))
       = [(Some (JStr (dec 1000)), Some (JStr ''Follow up''), Some (JStr ''a''),
           Some (JStr (toISOString stub_env 1000)))]"
proof -
  let ?r = "new_task stub_env 1000 (Some alice) follow_up"
  let ?s1 = "snd (post_task stub_env 1000 (Some alice) follow_up init_store)"
  let ?r' = "(spread ?r to_ops)(''updatedAt'' := Some (JStr (toISOString stub_env 2000)))"
  have team: "?r ''teamName'' = Some (JStr ''Sales'')" and id: "?r ''id'' = Some (JStr (dec 1000))"
    by (simp_all add: new_task_reads teamName_of_alice or_else_def)
  have rest: "?r ''title'' = Some (JStr ''Follow up'')" "?r ''createdBy'' = Some (JStr ''a'')"
    "?r ''createdAt'' = Some (JStr (toISOString stub_env 1000))"
    by (simp_all add: new_task_def follow_up_def name_of_def alice_def or_else_def)
  have created: "fst (post_task stub_env 1000 (Some alice) follow_up init_store) = Resp 201 (Item ?r)"
    by (simp add: post_task_def Let_def)
  have s1: "tasks ?s1 = [?r]"
    by (simp add: post_task_def init_store_def Let_def)
  have own: "owned (Some alice) (dec 1000) ?r"
    by (simp add: owned_def team id teamName_of_alice)
  have s2: "tasks (snd (put_task stub_env 2000 (Some alice) (dec 1000) to_ops ?s1)) = [?r']"
    by (simp add: put_task_def s1 own Let_def)
  have reach: "reachable stub_env (snd (put_task stub_env 2000 (Some alice) (dec 1000) to_ops ?s1))"
    by (rule reachable.by_put_task [OF reachable.by_post_task [OF reachable.start]])
  have seen: "map (\<lambda>r. (r ''id'', r ''title'', r ''createdBy'', r ''createdAt''))
        (listed (get_tasks (Some bob) (snd (put_task stub_env 2000 (Some alice) (dec 1000) to_ops ?s1))))
       = [(Some (JStr (dec 1000)), Some (JStr ''Follow up''), Some (JStr ''a''),
           Some (JStr (toISOString stub_env 1000)))]"
    unfolding get_tasks_def s2
    by (simp add: team_filter_def spread_def to_ops_def id rest teamName_of_bob)
  show ?thesis
    using in_team_alice in_team_bob created id team reach seen by blast
qed

section \<open>Update and delete across teams\<close>

lemma findIndex_None: "findIndex p xs = None \<longleftrightarrow> (\<forall>x\<in>set xs. \<not> p x)"
  by (induction xs) auto

lemma findIndex_Some: "findIndex p xs = Some i \<Longrightarrow> i < length xs \<and> p (xs ! i)"
  by (induction xs arbitrary: i) (auto split: if_splits)

lemma task_update_delete_not_found:
  assumes "\<forall>r\<in>set (tasks s). \<not> (r ''id'' = Some (JStr pid) \<and> r ''teamName'' = teamName_of user)"
  shows "put_task E now user pid b s = (Resp 404 (Error TaskNotFound), s)"
    and "delete_task user pid s = (Resp 404 (Error TaskNotFound), s)"
proof -
  have "findIndex (owned user pid) (tasks s) = None"
    using assms by (simp add: findIndex_None owned_def)
  then show "put_task E now user pid b s = (Resp 404 (Error TaskNotFound), s)"
    and "delete_task user pid s = (Resp 404 (Error TaskNotFound), s)"
    by (simp_all add: put_task_def delete_task_def)
qed

text \<open>
  The update and delete handlers of the Prisma-backed server look a row up by its id
  alone: their answer does not depend on the identity, and it is never a 404.
\<close>

lemma prisma_put_delete_ignore_identity:
  "prisma_put_task upd user pid b d = prisma_put_task upd user' pid b d"
  "prisma_delete_task user pid d = prisma_delete_task user' pid d"
  "prisma_put_project upd user pid b d = prisma_put_project upd user' pid b d"
  "prisma_delete_project user pid d = prisma_delete_project user' pid d"
  "prisma_put_lead upd user pid b d = prisma_put_lead upd user' pid b d"
  "prisma_delete_lead user pid d = prisma_delete_lead user' pid d"
  by (simp_all add: prisma_put_task_def prisma_delete_task_def prisma_put_project_def
      prisma_delete_project_def prisma_put_lead_def prisma_delete_lead_def)

text \<open>
  C2. In the Prisma-backed server bob (team Ops) updates and deletes the task \<open>t1\<close> of a
  user of team Sales: the update answers 200 with the changed row and the delete answers
  204 and removes the row, while an id that no row has answers 500. The claim asks for
  the same 404 in both cases. (The in-memory server answers that 404 for tasks, lemma
  \<open>task_update_delete_not_found\<close>, and has no update or delete route for projects and
  leads.)
\<close>

theorem C2_prisma_ignores_team:
  "team_of_row (db_users demo_db) sales_task = Some ''Sales''
   \<and> in_team (Some bob) ''Ops''
   \<and> fst (prisma_put_task spread_cols (Some bob) ''t1'' ((\<lambda>k. None)(''title'' := Some (JStr ''x''))) demo_db)
       = PResp 200 (PRow (sales_task\<lparr>r_cols := (\<lambda>k. None)(''title'' := Some (JStr ''x''))\<rparr>))
   \<and> prisma_delete_task (Some bob) ''t1'' demo_db = (PResp 204 PNoContent, demo_db\<lparr>db_tasks := []\<rparr>)
   \<and> prisma_delete_task (Some bob) ''t0'' demo_db = (PResp 500 (PError TaskDeleteFailed), demo_db)
   \<and> prisma_put_task spread_cols (Some bob) ''t0'' (\<lambda>k. None) demo_db
       = (PResp 500 (PError TaskUpdateFailed), demo_db)"
proof -
  have tasks: "db_tasks demo_db = [sales_task]"
    by (simp add: demo_db_def)
  have id: "r_id sales_task = ''t1''"
    by (simp add: sales_task_def)
  have cols: "spread (r_cols sales_task) ((\<lambda>k. None)(''title'' := Some (JStr ''x'')))
                = (\<lambda>k. None)(''title'' := Some (JStr ''x''))"
    by (rule ext) (simp add: spread_def sales_task_def)
  have 1: "team_of_row (db_users demo_db) sales_task = Some ''Sales''"
    by (simp add: team_of_row_def demo_db_def sales_task_def)
  have 2: "fst (prisma_put_task spread_cols (Some bob) ''t1'' ((\<lambda>k. None)(''title'' := Some (JStr ''x''))) demo_db)
       = PResp 200 (PRow (sales_task\<lparr>r_cols := (\<lambda>k. None)(''title'' := Some (JStr ''x''))\<rparr>))"
    by (simp add: prisma_put_task_def prisma_update_def tasks id spread_cols_def cols)
  have 3: "prisma_delete_task (Some bob) ''t1'' demo_db = (PResp 204 PNoContent, demo_db\<lparr>db_tasks := []\<rparr>)"
    by (simp add: prisma_delete_task_def prisma_delete_def tasks id)
  have 4: "prisma_delete_task (Some bob) ''t0'' demo_db = (PResp 500 (PError TaskDeleteFailed), demo_db)"
    by (simp add: prisma_delete_task_def prisma_delete_def tasks id)
  have 5: "prisma_put_task spread_cols (Some bob) ''t0'' (\<lambda>k. None) demo_db
       = (PResp 500 (PError TaskUpdateFailed), demo_db)"
    by (simp add: prisma_put_task_def prisma_update_def tasks id)
  show ?thesis using 1 in_team_bob 2 3 4 5 by blast
qed


section \<open>The team name of a record\<close>

lemma create_ignores_body_team:
  "post_task E now user (b(''teamName'' := x, ''createdBy'' := y)) s = post_task E now user b s"
  "post_project E now user (b(''teamName'' := x, ''createdBy'' := y)) s = post_project E now user b s"
  "post_lead E now user (b(''teamName'' := x, ''createdBy'' := y)) s = post_lead E now user b s"
  by (simp_all add: post_task_def new_task_def post_project_def new_project_def post_lead_def new_lead_def)

text \<open>
  An update keeps the team name of a task when the body has no \<open>teamName\<close>, and takes the
  body's when it has one.
\<close>

lemma put_task_teamName:
  assumes "findIndex (owned user pid) (tasks s) = Some i"
  shows "(tasks (snd (put_task E now user pid b s)) ! i) ''teamName''
           = (case b ''teamName'' of None \<Rightarrow> (tasks s ! i) ''teamName'' | Some v \<Rightarrow> Some v)"
proof -
  have "i < length (tasks s)"
    using assms by (simp add: findIndex_Some)
  then show ?thesis
    using assms by (simp add: put_task_def Let_def spread_def)
qed

text \<open>
  C3. Alice (team Sales) creates a task, stamped Sales, and then updates it with the body
  \<open>{teamName: "Ops"}\<close>: the stored task now has the team name Ops and is in the list
  result of bob (team Ops). The claim asks that no update changes the team name. (The
  create handlers do ignore \<open>teamName\<close> and \<open>createdBy\<close> in the body, lemma
  \<open>create_ignores_body_team\<close>.)
\<close>

theorem C3_update_reassigns_team:
  "map (\<lambda>r. r ''teamName'') (tasks (snd (post_task stub_env 1000 (Some alice) follow_up init_store)))
     = [Some (JStr ''Sales'')]
   \<and> map (\<lambda>r. r ''teamName'')
        (tasks (snd (put_task stub_env 2000 (Some alice) (dec 1000) to_ops
                      (snd (post_task stub_env 1000 (Some alice) follow_up init_store)))))
     = [Some (JStr ''Ops'')]
   \<and> map (\<lambda>r. r ''id'')
        (listed (get_tasks (Some bob)
           (snd (put_task stub_env 2000 (Some alice) (dec 1000) to_ops
                  (snd (post_task stub_env 1000 (Some alice) follow_up init_store))))))
     = [Some (JStr (dec 1000))]"
proof -
  let ?r = "new_task stub_env 1000 (Some alice) follow_up"
  let ?s1 = "snd (post_task stub_env 1000 (Some alice) follow_up init_store)"
  let ?r' = "(spread ?r to_ops)(''updatedAt'' := Some (JStr (toISOString stub_env 2000)))"
  have team: "?r ''teamName'' = Some (JStr ''Sales'')" and id: "?r ''id'' = Some (JStr (dec 1000))"
    by (simp_all add: new_task_reads teamName_of_alice or_else_def)
  have s1: "tasks ?s1 = [?r]"
    by (simp add: post_task_def init_store_def Let_def)
  have own: "owned (Some alice) (dec 1000) ?r"
    by (simp add: owned_def team id teamName_of_alice)
  have s2: "tasks (snd (put_task stub_env 2000 (Some alice) (dec 1000) to_ops ?s1)) = [?r']"
    by (simp add: put_task_def s1 own Let_def)
  have 1: "map (\<lambda>r. r ''teamName'') (tasks ?s1) = [Some (JStr ''Sales'')]"
    by (simp add: s1 team)
  have 2: "map (\<lambda>r. r ''teamName'') (tasks (snd (put_task stub_env 2000 (Some alice) (dec 1000) to_ops ?s1)))
             = [Some (JStr ''Ops'')]"
    unfolding s2 by (simp add: spread_def to_ops_def)
  have 3: "map (\<lambda>r. r ''id'')
             (listed (get_tasks (Some bob) (snd (put_task stub_env 2000 (Some alice) (dec 1000) to_ops ?s1))))
             = [Some (JStr (dec 1000))]"
    unfolding get_tasks_def s2 by (simp add: team_filter_def spread_def to_ops_def id teamName_of_bob)
  show ?thesis using 1 2 3 by blast
qed


section \<open>An identity without a team\<close>

text \<open>Every record the handlers store has a \<open>teamName\<close>.\<close>

lemma or_else_Some_defined: "or_else a (Some d) \<noteq> None"
  by (cases a) (simp_all add: or_else_def)

lemma stamped_new:
  "stamped (new_task E now user b)" "stamped (new_project E now user b)"
  "stamped (new_lead E now user b)"
  by (simp_all add: stamped_def new_task_def new_project_def new_lead_def or_else_Some_defined)

lemma register_keeps_resources:
  "tasks (snd (register E now salt b s)) = tasks s"
  "projects (snd (register E now salt b s)) = projects s"
  "leads (snd (register E now salt b s)) = leads s"
  by (simp_all add: register_def Let_def split: option.splits json.splits)

lemma list_all_update: "list_all P xs \<Longrightarrow> P y \<Longrightarrow> list_all P (xs[i := y])"
  by (induction xs arbitrary: i) (auto split: nat.splits)

lemma list_all_splice:
  assumes "list_all P xs"
  shows "list_all P (take i xs)" and "list_all P (drop (Suc i) xs)"
  using assms by (auto simp: list_all_iff dest: in_set_takeD in_set_dropD)

lemma put_task_stamped:
  assumes "all_stamped s"
  shows "all_stamped (snd (put_task E now user pid b s))"
proof (cases "findIndex (owned user pid) (tasks s)")
  case None
  then show ?thesis using assms by (simp add: put_task_def)
next
  case (Some i)
  then have i: "i < length (tasks s)"
    by (simp add: findIndex_Some)
  have old: "stamped (tasks s ! i)"
    using assms i by (simp add: all_stamped_def list_all_length)
  have "stamped ((spread (tasks s ! i) b)(''updatedAt'' := Some (JStr (toISOString E now))))"
    using old by (simp add: stamped_def spread_def split: option.splits)
  then show ?thesis
    using assms Some by (simp add: put_task_def Let_def all_stamped_def list_all_update)
qed

lemma delete_task_stamped:
  assumes "all_stamped s"
  shows "all_stamped (snd (delete_task user pid s))"
  using assms
  by (cases "findIndex (owned user pid) (tasks s)")
     (simp_all add: delete_task_def all_stamped_def list_all_splice)

lemma reachable_stamped: "reachable E s \<Longrightarrow> all_stamped s"
proof (induction rule: reachable.induct)
  case start
  show ?case by (simp add: all_stamped_def init_store_def)
next
  case (by_register s now salt b)
  then show ?case by (simp add: all_stamped_def register_keeps_resources)
next
  case (by_post_task s now user b)
  then show ?case by (simp add: all_stamped_def post_task_def Let_def stamped_new)
next
  case (by_put_task s now user pid b)
  from by_put_task.IH show ?case by (rule put_task_stamped)
next
  case (by_delete_task s user pid)
  from by_delete_task.IH show ?case by (rule delete_task_stamped)
next
  case (by_post_project s now user b)
  then show ?case by (simp add: all_stamped_def post_project_def Let_def stamped_new)
next
  case (by_post_lead s now user b)
  then show ?case by (simp add: all_stamped_def post_lead_def Let_def stamped_new)
qed

lemma team_filter_absent:
  assumes "teamName_of user = None" and "list_all stamped xs"
  shows "team_filter user xs = []"
  using assms by (simp add: team_filter_def list_all_iff stamped_def filter_empty_conv)

lemma or_else_absent: "teamName_of user = None \<Longrightarrow> or_else (teamName_of user) d = d"
  by (simp add: or_else_def)

lemma teamName_of_carol: "teamName_of (Some carol) = None"
  by (simp add: teamName_of_def carol_def)

text \<open>
  C4, as the claim states it, fails: carol has no team name, and her create is answered
  with no error and adds a task to the store.
\<close>

theorem C4_no_team_counterexample:
  "\<not> (\<exists>st m. fst (post_task stub_env 1000 (Some carol) follow_up init_store) = Resp st (Error m))
   \<and> tasks (snd (post_task stub_env 1000 (Some carol) follow_up init_store)) \<noteq> tasks init_store"
  by (simp add: post_task_def Let_def init_store_def)


text \<open>
  C4, amended. For an identity whose team name is absent, the create handlers of the
  in-memory server answer 201 and append the new record, stamped with the team name
  \<open>Unknown\<close>; the list handlers answer the empty array in every state the in-memory
  server reaches, and in every state of the database in the Prisma-backed server.
\<close>

theorem C4_no_team:
  assumes "teamName_of user = None" and "reachable E s"
  shows "post_task E now user b s
           = (Resp 201 (Item (new_task E now user b)), s\<lparr>tasks := tasks s @ [new_task E now user b]\<rparr>)
       \<and> new_task E now user b ''teamName'' = Some (JStr ''Unknown'')
       \<and> post_project E now user b s
           = (Resp 201 (Item (new_project E now user b)),
              s\<lparr>projects := projects s @ [new_project E now user b]\<rparr>)
       \<and> new_project E now user b ''teamName'' = Some (JStr ''Unknown'')
       \<and> post_lead E now user b s
           = (Resp 201 (Item (new_lead E now user b)), s\<lparr>leads := leads s @ [new_lead E now user b]\<rparr>)
       \<and> new_lead E now user b ''teamName'' = Some (JStr ''Unknown'')
       \<and> get_tasks user s = Resp 200 (Items [])
       \<and> get_projects user s = Resp 200 (Items [])
       \<and> get_leads user s = Resp 200 (Items [])
       \<and> prisma_get_tasks user d = PResp 200 (PRows [])
       \<and> prisma_get_projects user d = PResp 200 (PRows [])
       \<and> prisma_get_leads user d = PResp 200 (PRows [])"
proof -
  have inv: "all_stamped s"
    using assms(2) by (rule reachable_stamped)
  have stamp: "or_else (teamName_of user) (Some (JStr ''Unknown'')) = Some (JStr ''Unknown'')"
    using assms(1) by (rule or_else_absent)
  have 1: "post_task E now user b s
           = (Resp 201 (Item (new_task E now user b)), s\<lparr>tasks := tasks s @ [new_task E now user b]\<rparr>)"
    by (simp add: post_task_def Let_def)
  have 2: "new_task E now user b ''teamName'' = Some (JStr ''Unknown'')"
    using stamp by (simp add: new_task_def)
  have 3: "post_project E now user b s
           = (Resp 201 (Item (new_project E now user b)),
              s\<lparr>projects := projects s @ [new_project E now user b]\<rparr>)"
    by (simp add: post_project_def Let_def)
  have 4: "new_project E now user b ''teamName'' = Some (JStr ''Unknown'')"
    using stamp by (simp add: new_project_def)
  have 5: "post_lead E now user b s
           = (Resp 201 (Item (new_lead E now user b)), s\<lparr>leads := leads s @ [new_lead E now user b]\<rparr>)"
    by (simp add: post_lead_def Let_def)
  have 6: "new_lead E now user b ''teamName'' = Some (JStr ''Unknown'')"
    using stamp by (simp add: new_lead_def)
  have 7: "get_tasks user s = Resp 200 (Items [])"
    using inv assms(1) by (simp add: get_tasks_def all_stamped_def team_filter_absent)
  have 8: "get_projects user s = Resp 200 (Items [])"
    using inv assms(1) by (simp add: get_projects_def all_stamped_def team_filter_absent)
  have 9: "get_leads user s = Resp 200 (Items [])"
    using inv assms(1) by (simp add: get_leads_def all_stamped_def team_filter_absent)
  have p: "prisma_list user us rows = PResp 200 (PRows [])" for us rows
    using assms(1) by (simp add: prisma_list_def)
  show ?thesis
    using 1 2 3 4 5 6 7 8 9 p
    by (simp only: prisma_get_tasks_def prisma_get_projects_def prisma_get_leads_def simp_thms)
qed

theorem C4_no_team_witness:
  "teamName_of (Some carol) = None
   \<and> reachable stub_env (snd (post_task stub_env 1000 (Some alice) follow_up init_store))
   \<and> new_task stub_env 2000 (Some carol) follow_up ''teamName'' = Some (JStr ''Unknown'')
   \<and> get_tasks (Some carol) (snd (post_task stub_env 1000 (Some alice) follow_up init_store))
        = Resp 200 (Items [])"
proof -
  have r: "reachable stub_env (snd (post_task stub_env 1000 (Some alice) follow_up init_store))"
    by (rule reachable.by_post_task [OF reachable.start])
  show ?thesis
    using C4_no_team [OF teamName_of_carol r, of 2000 follow_up] teamName_of_carol r
    by blast
qed


section \<open>The order of a list result\<close>

text \<open>Different clock readings have different decimal strings.\<close>

lemma digit_val_digit_char: "d < 10 \<Longrightarrow> digit_val (digit_char d) = d"
  by (simp add: digit_val_def digit_char_def)

lemma undec_dec: "undec (dec n) = n"
proof (induction n rule: dec.induct)
  case (1 n)
  show ?case
  proof (cases "n < 10")
    case True
    then show ?thesis
      by (subst dec.simps) (simp add: undec_def digit_val_digit_char)
  next
    case False
    then have "undec (dec (n div 10)) = n div 10"
      using "1.IH" by simp
    then have "undec (dec (n div 10) @ [digit_char (n mod 10)]) = 10 * (n div 10) + n mod 10"
      by (simp add: undec_def digit_val_digit_char)
    then show ?thesis
      using False by (subst dec.simps) simp
  qed
qed

lemma dec_inj: "dec m = dec n \<Longrightarrow> m = n"
  by (metis undec_dec)

lemma dec_eq_iff: "dec m = dec n \<longleftrightarrow> m = n"
  using dec_inj by blast

lemma findMany_team_sorted:
  "sorted_wrt (\<lambda>a b. r_createdAt b \<le> r_createdAt a) (findMany_team us T rows)"
proof -
  have "sorted (map r_createdAt (sort_key r_createdAt (filter (\<lambda>r. team_of_row us r = Some T) rows)))"
    by (rule sorted_sort_key)
  then show ?thesis
    by (simp add: findMany_team_def sorted_map sorted_wrt_rev)
qed

lemma findMany_team_set:
  "set (findMany_team us T rows) = {r \<in> set rows. team_of_row us r = Some T}"
  "length (findMany_team us T rows) = length (filter (\<lambda>r. team_of_row us r = Some T) rows)"
  by (simp_all add: findMany_team_def)

lemma prisma_list_in_team:
  "in_team user T \<Longrightarrow> prisma_list user us rows = PResp 200 (PRows (findMany_team us T rows))"
  by (auto simp: in_team_def prisma_list_def teamName_of_def split: option.splits)

lemma team_filter_append:
  "team_filter user (xs @ [r])
     = team_filter user xs @ (if r ''teamName'' = teamName_of user then [r] else [])"
  by (simp add: team_filter_def)

text \<open>
  C5, as the claim states it, fails in the in-memory server: alice creates a task at clock
  reading 1000 and another at 2000, and her list result has the task created first in
  front, not the most recently created one.
\<close>

theorem C5_list_order_counterexample:
  "listed (get_tasks (Some alice)
      (snd (post_task stub_env 2000 (Some alice) follow_up
             (snd (post_task stub_env 1000 (Some alice) follow_up init_store)))))
     = [new_task stub_env 1000 (Some alice) follow_up, new_task stub_env 2000 (Some alice) follow_up]
   \<and> listed (get_tasks (Some alice)
      (snd (post_task stub_env 2000 (Some alice) follow_up
             (snd (post_task stub_env 1000 (Some alice) follow_up init_store)))))
     \<noteq> [new_task stub_env 2000 (Some alice) follow_up, new_task stub_env 1000 (Some alice) follow_up]"
proof -
  let ?r1 = "new_task stub_env 1000 (Some alice) follow_up"
  let ?r2 = "new_task stub_env 2000 (Some alice) follow_up"
  have team: "?r1 ''teamName'' = Some (JStr ''Sales'')" "?r2 ''teamName'' = Some (JStr ''Sales'')"
    by (simp_all add: new_task_reads teamName_of_alice or_else_def)
  have "?r1 ''id'' \<noteq> ?r2 ''id''"
    by (simp add: new_task_reads dec_eq_iff)
  then have ne: "?r1 \<noteq> ?r2"
    by metis
  have l: "listed (get_tasks (Some alice)
      (snd (post_task stub_env 2000 (Some alice) follow_up
             (snd (post_task stub_env 1000 (Some alice) follow_up init_store))))) = [?r1, ?r2]"
    by (simp add: get_tasks_def team_filter_def post_task_def Let_def init_store_def team
        teamName_of_alice)
  show ?thesis
    unfolding l using ne by simp
qed


text \<open>
  C5, amended. For an identity that carries the team name \<open>T\<close>, the list handlers return
  exactly the records of team \<open>T\<close>. In the in-memory server they come in the order of the
  store, and a create appends: the list result after a create is the list result before
  it followed by the new record (most recently created last). In the Prisma-backed
  server they are the rows whose user has team \<open>T\<close>, ordered by \<open>createdAt\<close> descending.
\<close>

theorem C5_list_order:
  assumes "in_team user T"
  shows "listed (get_tasks user s) = filter (\<lambda>r. r ''teamName'' = Some (JStr T)) (tasks s)
       \<and> listed (get_projects user s) = filter (\<lambda>r. r ''teamName'' = Some (JStr T)) (projects s)
       \<and> listed (get_leads user s) = filter (\<lambda>r. r ''teamName'' = Some (JStr T)) (leads s)
       \<and> listed (get_tasks user (snd (post_task E now user b s)))
           = listed (get_tasks user s) @ [new_task E now user b]
       \<and> listed (get_projects user (snd (post_project E now user b s)))
           = listed (get_projects user s) @ [new_project E now user b]
       \<and> listed (get_leads user (snd (post_lead E now user b s)))
           = listed (get_leads user s) @ [new_lead E now user b]
       \<and> sorted_wrt (\<lambda>a b. r_createdAt b \<le> r_createdAt a) (plisted (prisma_get_tasks user d))
       \<and> set (plisted (prisma_get_tasks user d))
           = {r \<in> set (db_tasks d). team_of_row (db_users d) r = Some T}
       \<and> sorted_wrt (\<lambda>a b. r_createdAt b \<le> r_createdAt a) (plisted (prisma_get_projects user d))
       \<and> set (plisted (prisma_get_projects user d))
           = {r \<in> set (db_projects d). team_of_row (db_users d) r = Some T}
       \<and> sorted_wrt (\<lambda>a b. r_createdAt b \<le> r_createdAt a) (plisted (prisma_get_leads user d))
       \<and> set (plisted (prisma_get_leads user d))
           = {r \<in> set (db_leads d). team_of_row (db_users d) r = Some T}"
proof -
  have own: "teamName_of user = Some (JStr T)"
    using assms by (simp add: in_team_def)
  have stamp: "or_else (teamName_of user) (Some (JStr ''Unknown'')) = Some (JStr T)"
    using assms by (rule or_else_in_team)
  have 1: "listed (get_tasks user s) = filter (\<lambda>r. r ''teamName'' = Some (JStr T)) (tasks s)"
    by (simp add: get_tasks_def team_filter_def own)
  have 2: "listed (get_projects user s) = filter (\<lambda>r. r ''teamName'' = Some (JStr T)) (projects s)"
    by (simp add: get_projects_def team_filter_def own)
  have 3: "listed (get_leads user s) = filter (\<lambda>r. r ''teamName'' = Some (JStr T)) (leads s)"
    by (simp add: get_leads_def team_filter_def own)
  have "new_task E now user b ''teamName'' = teamName_of user"
    using stamp own by (simp add: new_task_def)
  then have 4: "listed (get_tasks user (snd (post_task E now user b s)))
           = listed (get_tasks user s) @ [new_task E now user b]"
    by (simp add: get_tasks_def post_task_def Let_def team_filter_append)
  have "new_project E now user b ''teamName'' = teamName_of user"
    using stamp own by (simp add: new_project_def)
  then have 5: "listed (get_projects user (snd (post_project E now user b s)))
           = listed (get_projects user s) @ [new_project E now user b]"
    by (simp add: get_projects_def post_project_def Let_def team_filter_append)
  have "new_lead E now user b ''teamName'' = teamName_of user"
    using stamp own by (simp add: new_lead_def)
  then have 6: "listed (get_leads user (snd (post_lead E now user b s)))
           = listed (get_leads user s) @ [new_lead E now user b]"
    by (simp add: get_leads_def post_lead_def Let_def team_filter_append)
  have p: "plisted (prisma_list user us rows) = findMany_team us T rows" for us rows
    using assms by (simp add: prisma_list_in_team)
  have 7: "sorted_wrt (\<lambda>a b. r_createdAt b \<le> r_createdAt a) (plisted (prisma_get_tasks user d))"
    by (simp add: prisma_get_tasks_def p findMany_team_sorted)
  have 8: "set (plisted (prisma_get_tasks user d))
           = {r \<in> set (db_tasks d). team_of_row (db_users d) r = Some T}"
    by (simp add: prisma_get_tasks_def p findMany_team_set)
  have 9: "sorted_wrt (\<lambda>a b. r_createdAt b \<le> r_createdAt a) (plisted (prisma_get_projects user d))"
    by (simp add: prisma_get_projects_def p findMany_team_sorted)
  have 10: "set (plisted (prisma_get_projects user d))
           = {r \<in> set (db_projects d). team_of_row (db_users d) r = Some T}"
    by (simp add: prisma_get_projects_def p findMany_team_set)
  have 11: "sorted_wrt (\<lambda>a b. r_createdAt b \<le> r_createdAt a) (plisted (prisma_get_leads user d))"
    by (simp add: prisma_get_leads_def p findMany_team_sorted)
  have 12: "set (plisted (prisma_get_leads user d))
           = {r \<in> set (db_leads d). team_of_row (db_users d) r = Some T}"
    by (simp add: prisma_get_leads_def p findMany_team_set)
  show ?thesis
    using 1 2 3 4 5 6 7 8 9 10 11 12 by blast
qed


theorem C5_list_order_witness:
  "in_team (Some alice) ''Sales''
   \<and> listed (get_tasks (Some alice)
        (snd (post_task stub_env 2000 (Some alice) follow_up
               (snd (post_task stub_env 1000 (Some alice) follow_up init_store)))))
       = [new_task stub_env 1000 (Some alice) follow_up, new_task stub_env 2000 (Some alice) follow_up]
   \<and> db_tasks demo_db2 = [sales_task, later_task]
   \<and> plisted (prisma_get_tasks (Some alice) demo_db2) = [later_task, sales_task]
   \<and> sorted_wrt (\<lambda>a b. r_createdAt b \<le> r_createdAt a) (plisted (prisma_get_tasks (Some alice) demo_db2))"
proof -
  let ?s1 = "snd (post_task stub_env 1000 (Some alice) follow_up init_store)"
  let ?r1 = "new_task stub_env 1000 (Some alice) follow_up"
  have team: "?r1 ''teamName'' = Some (JStr ''Sales'')"
    by (simp add: new_task_reads teamName_of_alice or_else_def)
  have first: "listed (get_tasks (Some alice) ?s1) = [?r1]"
    by (simp add: get_tasks_def team_filter_def post_task_def Let_def init_store_def team
        teamName_of_alice)
  note inst = C5_list_order [OF in_team_alice, of ?s1 stub_env 2000 follow_up demo_db2]
  have 1: "listed (get_tasks (Some alice) (snd (post_task stub_env 2000 (Some alice) follow_up ?s1)))
            = [?r1, new_task stub_env 2000 (Some alice) follow_up]"
    using inst first by simp
  have 2: "sorted_wrt (\<lambda>a b. r_createdAt b \<le> r_createdAt a)
             (plisted (prisma_get_tasks (Some alice) demo_db2))"
    using inst by blast
  have 3: "db_tasks demo_db2 = [sales_task, later_task]"
    by (simp add: demo_db2_def)
  have t: "team_of_row (db_users demo_db2) sales_task = Some ''Sales''"
          "team_of_row (db_users demo_db2) later_task = Some ''Sales''"
    by (simp_all add: team_of_row_def demo_db2_def demo_db_def sales_task_def later_task_def)
  have c: "r_createdAt sales_task = 1000" "r_createdAt later_task = 2000"
    by (simp_all add: sales_task_def later_task_def)
  have 4: "plisted (prisma_get_tasks (Some alice) demo_db2) = [later_task, sales_task]"
    by (simp add: prisma_get_tasks_def prisma_list_in_team [OF in_team_alice] findMany_team_def 3 t c)
  show ?thesis
    using in_team_alice 1 2 3 4 by blast
qed


section \<open>Registration and login\<close>


lemma register_users_grow: "set (users s) \<subseteq> set (users (snd (register E now salt b s)))"
  by (auto simp: register_def Let_def split: option.splits json.splits)

lemma register_created:
  assumes "status (fst (register E now salt b s)) = 201" and "b ''email'' = Some (JStr e)"
  shows "\<exists>h. users (snd (register E now salt b s)) = users s @ [new_user E now e h b]"
  using assms by (auto simp: register_def Let_def split: if_splits option.splits)

lemma find_Some_ex: "x \<in> set xs \<Longrightarrow> P x \<Longrightarrow> \<exists>y. find P xs = Some y"
  by (cases "find P xs") (auto simp: find_None_iff)

text \<open>
  C6. After a registration with the email \<open>e\<close> has succeeded, in every later store (one
  that still holds the users of the store it left), a registration whose email \<open>e'\<close>
  lower-cases to the same string and that passes validation (non-empty email, truthy
  password) is answered 400 with the already-registered message, and the store is
  unchanged.
\<close>

theorem C6_duplicate_email:
  assumes "status (fst (register E now salt b s)) = 201"
    and "b ''email'' = Some (JStr e)"
    and "set (users (snd (register E now salt b s))) \<subseteq> set (users s2)"
    and "b' ''email'' = Some (JStr e')" and "e' \<noteq> []" and "truthy (b' ''password'')"
    and "toLowerCase E e' = toLowerCase E e"
  shows "register E now' salt' b' s2 = (Resp 400 (Error EmailAlreadyRegistered), s2)"
proof -
  obtain h where "users (snd (register E now salt b s)) = users s @ [new_user E now e h b]"
    using register_created [OF assms(1,2)] by blast
  then have "new_user E now e h b \<in> set (users s2)"
    using assms(3) by auto
  moreover have "u_email (new_user E now e h b) = toLowerCase E e'"
    using assms(7) by (simp add: new_user_def)
  ultimately obtain y where "find (\<lambda>u. u_email u = toLowerCase E e') (users s2) = Some y"
    using find_Some_ex [of "new_user E now e h b" "users s2" "\<lambda>u. u_email u = toLowerCase E e'"]
    by blast
  then show ?thesis
    using assms(4,5,6) by (simp add: register_def)
qed

text \<open>At a concrete input: \<open>A@x.com\<close> after \<open>a@x.com\<close>.\<close>

lemma lower_A: "toLowerCase stub_env ''A@x.com'' = toLowerCase stub_env ''a@x.com''"
  by code_simp

lemma register_a: "status (fst (register stub_env 1000 ''salt'' reg_a init_store)) = 201"
  by (simp add: register_def reg_a_def init_store_def stub_env_def Let_def)

theorem C6_duplicate_email_witness:
  "status (fst (register stub_env 1000 ''salt'' reg_a init_store)) = 201
   \<and> reg_a ''email'' = Some (JStr ''a@x.com'') \<and> reg_A ''email'' = Some (JStr ''A@x.com'')
   \<and> truthy (reg_A ''password'')
   \<and> toLowerCase stub_env ''A@x.com'' = toLowerCase stub_env ''a@x.com''
   \<and> register stub_env 2000 ''pepper'' reg_A (snd (register stub_env 1000 ''salt'' reg_a init_store))
       = (Resp 400 (Error EmailAlreadyRegistered), snd (register stub_env 1000 ''salt'' reg_a init_store))"
proof -
  have a: "reg_a ''email'' = Some (JStr ''a@x.com'')" and b: "reg_A ''email'' = Some (JStr ''A@x.com'')"
    and c: "truthy (reg_A ''password'')" and d: "''A@x.com'' \<noteq> []"
    by (simp_all add: reg_a_def reg_A_def)
  show ?thesis
    using C6_duplicate_email [OF register_a a subset_refl b d c lower_A, of 2000 "''pepper''"]
      register_a a b c lower_A
    by blast
qed

text \<open>
  In every store, a login whose email matches no user and a login whose email matches a
  user and whose password the comparison answers false for get the same response: 401
  with the same message.
\<close>

lemma login_same_error_compare_false:
  assumes "b1 ''email'' = Some (JStr e1)" and "e1 \<noteq> []" and "truthy (b1 ''password'')"
    and "find (\<lambda>u. u_email u = toLowerCase E e1) (users s) = None"
    and "b2 ''email'' = Some (JStr e2)" and "e2 \<noteq> []" and "truthy (b2 ''password'')"
    and "find (\<lambda>u. u_email u = toLowerCase E e2) (users s) = Some u"
    and "bcrypt_compare E (b2 ''password'') (u_password u) = Some False"
  shows "login E now1 b1 s = Resp 401 (Error EmailOrPasswordIncorrect)
       \<and> login E now2 b2 s = Resp 401 (Error EmailOrPasswordIncorrect)"
  using assms by (simp add: login_def)


lemma users_after_register_a:
  "users (snd (register stub_env 1000 ''salt'' reg_a init_store)) = [user_a]"
  by (simp add: register_def reg_a_def init_store_def stub_env_def Let_def user_a_def)

lemma lower_z: "toLowerCase stub_env ''z@x.com'' \<noteq> toLowerCase stub_env ''a@x.com''"
  by code_simp

lemma compare_wrong: "bcrypt_compare stub_env (Some (JStr ''wrong'')) ''saltpw123456'' = Some False"
  by (simp add: stub_env_def)

lemma login_same_error_compare_false_example:
  "find (\<lambda>u. u_email u = toLowerCase stub_env ''z@x.com'')
      (users (snd (register stub_env 1000 ''salt'' reg_a init_store))) = None
   \<and> find (\<lambda>u. u_email u = toLowerCase stub_env ''a@x.com'')
      (users (snd (register stub_env 1000 ''salt'' reg_a init_store))) = Some user_a
   \<and> bcrypt_compare stub_env (login_a_wrong ''password'') (u_password user_a) = Some False
   \<and> login stub_env 2000 login_z (snd (register stub_env 1000 ''salt'' reg_a init_store))
       = Resp 401 (Error EmailOrPasswordIncorrect)
   \<and> login stub_env 3000 login_a_wrong (snd (register stub_env 1000 ''salt'' reg_a init_store))
       = Resp 401 (Error EmailOrPasswordIncorrect)"
proof -
  let ?s = "snd (register stub_env 1000 ''salt'' reg_a init_store)"
  have mail: "u_email user_a = toLowerCase stub_env ''a@x.com''"
    and hash: "u_password user_a = ''saltpw123456''"
    by (simp_all add: user_a_def new_user_def)
  have z: "login_z ''email'' = Some (JStr ''z@x.com'')" "''z@x.com'' \<noteq> []"
    "truthy (login_z ''password'')"
    by (simp_all add: login_z_def)
  have a: "login_a_wrong ''email'' = Some (JStr ''a@x.com'')" "''a@x.com'' \<noteq> []"
    "truthy (login_a_wrong ''password'')"
    by (simp_all add: login_a_wrong_def)
  have none: "find (\<lambda>u. u_email u = toLowerCase stub_env ''z@x.com'') (users ?s) = None"
    using lower_z by (simp add: users_after_register_a mail)
  have some: "find (\<lambda>u. u_email u = toLowerCase stub_env ''a@x.com'') (users ?s) = Some user_a"
    by (simp add: users_after_register_a mail)
  have bad: "bcrypt_compare stub_env (login_a_wrong ''password'') (u_password user_a) = Some False"
    using compare_wrong by (simp add: login_a_wrong_def hash)
  show ?thesis
    using login_same_error_compare_false [OF z none a some bad, of 2000 3000] none some bad
    by blast
qed


text \<open>When the comparison itself fails (a rejected promise), the login answers 500.\<close>

lemma login_compare_rejected:
  assumes "b ''email'' = Some (JStr e)" and "e \<noteq> []" and "truthy (b ''password'')"
    and "find (\<lambda>u. u_email u = toLowerCase E e) (users s) = Some u"
    and "bcrypt_compare E (b ''password'') (u_password u) = None"
  shows "login E now b s = Resp 500 (Error LoginFailed)"
  using assms by (simp add: login_def)

text \<open>
  C7. After \<open>a@x.com\<close> has registered, two logins with the password \<open>12345\<close> (a number, which
  passes the handler's check \<open>!password\<close> and which the comparison rejects): with the
  unregistered email \<open>z@x.com\<close> the login answers 401 with the incorrect-email-or-password
  message, with the registered email \<open>a@x.com\<close> it answers 500 with the login-failed
  message. The claim asks for the identical error in both cases.
\<close>

theorem C7_login_enumerates:
  "reachable stub_env (snd (register stub_env 1000 ''salt'' reg_a init_store))
   \<and> users (snd (register stub_env 1000 ''salt'' reg_a init_store)) = [user_a]
   \<and> u_email user_a = toLowerCase stub_env ''a@x.com''
   \<and> bcrypt_compare stub_env (login_a_number ''password'') (u_password user_a) = None
   \<and> login stub_env 2000 login_z_number (snd (register stub_env 1000 ''salt'' reg_a init_store))
       = Resp 401 (Error EmailOrPasswordIncorrect)
   \<and> login stub_env 2000 login_a_number (snd (register stub_env 1000 ''salt'' reg_a init_store))
       = Resp 500 (Error LoginFailed)"
proof -
  let ?s = "snd (register stub_env 1000 ''salt'' reg_a init_store)"
  have reach: "reachable stub_env ?s"
    by (rule reachable.by_register [OF reachable.start])
  have mail: "u_email user_a = toLowerCase stub_env ''a@x.com''"
    by (simp add: user_a_def new_user_def)
  have z: "login_z_number ''email'' = Some (JStr ''z@x.com'')" "''z@x.com'' \<noteq> []"
    "truthy (login_z_number ''password'')"
    by (simp_all add: login_z_number_def)
  have a: "login_a_number ''email'' = Some (JStr ''a@x.com'')" "''a@x.com'' \<noteq> []"
    "truthy (login_a_number ''password'')"
    by (simp_all add: login_a_number_def)
  have none: "find (\<lambda>u. u_email u = toLowerCase stub_env ''z@x.com'') (users ?s) = None"
    using lower_z by (simp add: users_after_register_a mail)
  have some: "find (\<lambda>u. u_email u = toLowerCase stub_env ''a@x.com'') (users ?s) = Some user_a"
    by (simp add: users_after_register_a mail)
  have rejected: "bcrypt_compare stub_env (login_a_number ''password'') (u_password user_a) = None"
    by (simp add: stub_env_def login_a_number_def)
  have 1: "login stub_env 2000 login_z_number ?s = Resp 401 (Error EmailOrPasswordIncorrect)"
    using z none by (simp add: login_def)
  have 2: "login stub_env 2000 login_a_number ?s = Resp 500 (Error LoginFailed)"
    using a some rejected by (rule login_compare_rejected)
  show ?thesis
    using reach users_after_register_a mail rejected 1 2 by blast
qed

text \<open>The two responses differ, in status and in message.\<close>

theorem C7_login_enumerates_witness:
  "login stub_env 2000 login_z_number (snd (register stub_env 1000 ''salt'' reg_a init_store))
     \<noteq> login stub_env 2000 login_a_number (snd (register stub_env 1000 ''salt'' reg_a init_store))"
  using C7_login_enumerates by simp

section \<open>User ids\<close>

lemma register_users:
  "users (snd (register E now salt b s)) = users s
   \<or> (\<exists>u. users (snd (register E now salt b s)) = users s @ [u] \<and> u_id u = dec now)"
  by (auto simp: register_def Let_def new_user_def split: option.splits json.splits)

lemma register_all_distinct:
  assumes "distinct (map u_id (users s))" and "distinct (map rq_now qs)"
    and "\<forall>q\<in>set qs. dec (rq_now q) \<notin> u_id ` set (users s)"
  shows "distinct (map u_id (users (register_all E qs s)))"
  using assms
proof (induction qs arbitrary: s)
  case Nil
  then show ?case by simp
next
  case (Cons q qs)
  let ?s = "snd (register E (rq_now q) (rq_salt q) (rq_body q) s)"
  have fresh: "dec (rq_now q) \<notin> u_id ` set (users s)"
    using Cons.prems(3) by simp
  have ids: "u_id ` set (users ?s) \<subseteq> insert (dec (rq_now q)) (u_id ` set (users s))"
    using register_users [of E "rq_now q" "rq_salt q" "rq_body q" s] by auto
  have d: "distinct (map u_id (users ?s))"
    using register_users [of E "rq_now q" "rq_salt q" "rq_body q" s] Cons.prems(1) fresh by auto
  have "\<forall>q'\<in>set qs. dec (rq_now q') \<notin> u_id ` set (users ?s)"
  proof
    fix q' assume q': "q' \<in> set qs"
    then have "rq_now q' \<in> rq_now ` set qs"
      by (rule imageI)
    moreover have "rq_now q \<notin> rq_now ` set qs"
      using Cons.prems(2) by simp
    ultimately have "rq_now q' \<noteq> rq_now q"
      by metis
    then have "dec (rq_now q') \<noteq> dec (rq_now q)"
      by (simp add: dec_eq_iff)
    moreover have "dec (rq_now q') \<notin> u_id ` set (users s)"
      using Cons.prems(3) q' by simp
    ultimately show "dec (rq_now q') \<notin> u_id ` set (users ?s)"
      using ids by blast
  qed
  moreover have "distinct (map rq_now qs)"
    using Cons.prems(2) by simp
  ultimately show ?case
    using Cons.IH [OF d] by simp
qed

lemma lower_b: "toLowerCase stub_env ''b@x.com'' \<noteq> toLowerCase stub_env ''a@x.com''"
  by code_simp

lemma register_ok:
  assumes "b ''email'' = Some (JStr e)" and "e \<noteq> []" and "truthy (b ''password'')"
    and "find (\<lambda>u. u_email u = toLowerCase E e) (users s) = None"
    and "bcrypt_hash E salt (b ''password'') = Some h"
  shows "register E now salt b s
           = (Resp 201 (Auth RegistrationCompleted (user_claims (new_user E now e h b))
                          (jwt_sign E (user_claims (new_user E now e h b)) now)),
              s\<lparr>users := users s @ [new_user E now e h b]\<rparr>)"
  using assms by (simp add: register_def Let_def)

lemma hash_b: "bcrypt_hash stub_env ''pepper'' (reg_b ''password'') = Some ''pepperpw654321''"
  by (simp add: stub_env_def reg_b_def)

lemma users_after_a_b:
  "map u_id (users (register_all stub_env
      [\<lparr>rq_now = 1000, rq_salt = ''salt'', rq_body = reg_a\<rparr>,
       \<lparr>rq_now = n, rq_salt = ''pepper'', rq_body = reg_b\<rparr>] init_store))
   = [dec 1000, dec n]"
proof -
  let ?s1 = "snd (register stub_env 1000 ''salt'' reg_a init_store)"
  have mail: "u_email user_a = toLowerCase stub_env ''a@x.com''"
    by (simp add: user_a_def new_user_def)
  have b: "reg_b ''email'' = Some (JStr ''b@x.com'')" "''b@x.com'' \<noteq> []" "truthy (reg_b ''password'')"
    by (simp_all add: reg_b_def)
  have none: "find (\<lambda>u. u_email u = toLowerCase stub_env ''b@x.com'') (users ?s1) = None"
    using lower_b by (simp add: users_after_register_a mail)
  have "users (snd (register stub_env n ''pepper'' reg_b ?s1))
          = [user_a, new_user stub_env n ''b@x.com'' ''pepperpw654321'' reg_b]"
    by (simp add: register_ok [OF b none hash_b] users_after_register_a)
  then show ?thesis
    by (simp add: new_user_def user_a_def)
qed

text \<open>
  C9, as the claim states it, fails: two registrations with different emails at the same
  clock reading 1000 both succeed, and both users get the id \<open>1000\<close>.
\<close>

theorem C9_user_ids_counterexample:
  "map u_id (users (register_all stub_env
      [\<lparr>rq_now = 1000, rq_salt = ''salt'', rq_body = reg_a\<rparr>,
       \<lparr>rq_now = 1000, rq_salt = ''pepper'', rq_body = reg_b\<rparr>] init_store))
     = [dec 1000, dec 1000]
   \<and> \<not> distinct (map u_id (users (register_all stub_env
      [\<lparr>rq_now = 1000, rq_salt = ''salt'', rq_body = reg_a\<rparr>,
       \<lparr>rq_now = 1000, rq_salt = ''pepper'', rq_body = reg_b\<rparr>] init_store)))"
  unfolding users_after_a_b by simp


text \<open>
  C9, amended. From the empty store, after any run of register requests whose clock
  readings are pairwise different, the ids of the stored users are pairwise different
  (an id is the decimal string of the clock reading of its registration).
\<close>

theorem C9_user_ids:
  assumes "distinct (map rq_now qs)"
  shows "distinct (map u_id (users (register_all E qs init_store)))"
  using assms by (intro register_all_distinct) (simp_all add: init_store_def)

theorem C9_user_ids_witness:
  "distinct (map rq_now [\<lparr>rq_now = 1000, rq_salt = ''salt'', rq_body = reg_a\<rparr>,
                         \<lparr>rq_now = 2000, rq_salt = ''pepper'', rq_body = reg_b\<rparr>])
   \<and> map u_id (users (register_all stub_env
        [\<lparr>rq_now = 1000, rq_salt = ''salt'', rq_body = reg_a\<rparr>,
         \<lparr>rq_now = 2000, rq_salt = ''pepper'', rq_body = reg_b\<rparr>] init_store))
       = [dec 1000, dec 2000]
   \<and> distinct (map u_id (users (register_all stub_env
        [\<lparr>rq_now = 1000, rq_salt = ''salt'', rq_body = reg_a\<rparr>,
         \<lparr>rq_now = 2000, rq_salt = ''pepper'', rq_body = reg_b\<rparr>] init_store)))"
proof -
  have d: "distinct (map rq_now [\<lparr>rq_now = 1000, rq_salt = ''salt'', rq_body = reg_a\<rparr>,
                                 \<lparr>rq_now = 2000, rq_salt = ''pepper'', rq_body = reg_b\<rparr>])"
    by simp
  show ?thesis
    using C9_user_ids [OF d, of stub_env] d users_after_a_b [of 2000] by blast
qed

section \<open>The responses of register and login\<close>


















section \<open>Create, then list\<close>

lemma new_task_fields:
  "new_task E now user F ''title'' = F ''title''"
  "\<forall>k\<in>set task_fields. truthy (F k) \<longrightarrow> new_task E now user F k = F k"
  by (simp_all add: task_fields_def new_task_def or_else_def)

lemma new_project_fields:
  "new_project E now user F ''name'' = F ''name''"
  "\<forall>k\<in>set project_fields. truthy (F k) \<longrightarrow> new_project E now user F k = F k"
  by (simp_all add: project_fields_def new_project_def or_else_def)

lemma new_lead_fields:
  "new_lead E now user F ''company'' = F ''company''"
  "new_lead E now user F ''contact'' = F ''contact''"
  "\<forall>k\<in>set lead_fields. truthy (F k) \<longrightarrow> new_lead E now user F k = F k"
  by (simp_all add: lead_fields_def new_lead_def or_else_def)

lemma created_is_listed:
  assumes "in_team user T"
  shows "new_task E now user F \<in> set (listed (get_tasks user (snd (post_task E now user F s))))"
    and "new_project E now user F \<in> set (listed (get_projects user (snd (post_project E now user F s))))"
    and "new_lead E now user F \<in> set (listed (get_leads user (snd (post_lead E now user F s))))"
proof -
  have own: "teamName_of user = Some (JStr T)"
    using assms by (simp add: in_team_def)
  have stamp: "or_else (teamName_of user) (Some (JStr ''Unknown'')) = Some (JStr T)"
    using assms by (rule or_else_in_team)
  have "new_task E now user F ''teamName'' = teamName_of user"
    using stamp own by (simp add: new_task_def)
  then show "new_task E now user F \<in> set (listed (get_tasks user (snd (post_task E now user F s))))"
    by (simp add: get_tasks_def post_task_def Let_def team_filter_def)
  have "new_project E now user F ''teamName'' = teamName_of user"
    using stamp own by (simp add: new_project_def)
  then show "new_project E now user F
      \<in> set (listed (get_projects user (snd (post_project E now user F s))))"
    by (simp add: get_projects_def post_project_def Let_def team_filter_def)
  have "new_lead E now user F ''teamName'' = teamName_of user"
    using stamp own by (simp add: new_lead_def)
  then show "new_lead E now user F \<in> set (listed (get_leads user (snd (post_lead E now user F s))))"
    by (simp add: get_leads_def post_lead_def Let_def team_filter_def)
qed

text \<open>
  C8, as the claim states it, fails: alice creates a lead with \<open>probability: 0\<close> and her
  list result holds the lead with probability 50; she creates a task with \<open>status: ""\<close>
  and her list result holds the task with the status \<open>pending\<close>. A falsy value in the body
  is replaced by the default (\<open>req.body.x || default\<close>).
\<close>

theorem C8_create_list_round_trip_counterexample:
  "\<not> round_trip lead_fields cold_lead
        (listed (get_leads (Some alice) (snd (post_lead stub_env 1000 (Some alice) cold_lead init_store))))
   \<and> \<not> round_trip task_fields blank_status
        (listed (get_tasks (Some alice) (snd (post_task stub_env 1000 (Some alice) blank_status init_store))))"
proof -
  have l: "listed (get_leads (Some alice) (snd (post_lead stub_env 1000 (Some alice) cold_lead init_store)))
         = [new_lead stub_env 1000 (Some alice) cold_lead]"
    by (simp add: get_leads_def post_lead_def Let_def init_store_def team_filter_def new_lead_def
        teamName_of_alice or_else_def)
  have t: "listed (get_tasks (Some alice) (snd (post_task stub_env 1000 (Some alice) blank_status init_store)))
         = [new_task stub_env 1000 (Some alice) blank_status]"
    by (simp add: get_tasks_def post_task_def Let_def init_store_def team_filter_def new_task_def
        teamName_of_alice or_else_def)
  have 1: "new_lead stub_env 1000 (Some alice) cold_lead ''probability'' = Some (JNum 50)"
    "cold_lead ''probability'' = Some (JNum 0)"
    by (simp_all add: new_lead_def cold_lead_def or_else_def)
  have 2: "new_task stub_env 1000 (Some alice) blank_status ''status'' = Some (JStr ''pending'')"
    "blank_status ''status'' = Some (JStr '''')"
    by (simp_all add: new_task_def blank_status_def or_else_def)
  show ?thesis
    unfolding l t using 1 2 by (simp add: round_trip_def lead_fields_def task_fields_def)
qed



text \<open>
  C8, amended. For an identity that carries a team name and every field set \<open>F\<close>, the
  create is answered 201 with the new record, the list result of the identity after the
  create contains that record, and in it every entity field that \<open>F\<close> supplies with a
  truthy value equals the value in \<open>F\<close>; the title of a task, the name of a project and
  the company and contact of a lead equal the value in \<open>F\<close> whatever it is.
\<close>

theorem C8_create_list_round_trip:
  assumes "in_team user T"
  shows "(fst (post_task E now user F s) = Resp 201 (Item (new_task E now user F))
          \<and> new_task E now user F \<in> set (listed (get_tasks user (snd (post_task E now user F s))))
          \<and> new_task E now user F ''title'' = F ''title''
          \<and> (\<forall>k\<in>set task_fields. truthy (F k) \<longrightarrow> new_task E now user F k = F k))
       \<and> (fst (post_project E now user F s) = Resp 201 (Item (new_project E now user F))
          \<and> new_project E now user F
               \<in> set (listed (get_projects user (snd (post_project E now user F s))))
          \<and> new_project E now user F ''name'' = F ''name''
          \<and> (\<forall>k\<in>set project_fields. truthy (F k) \<longrightarrow> new_project E now user F k = F k))
       \<and> (fst (post_lead E now user F s) = Resp 201 (Item (new_lead E now user F))
          \<and> new_lead E now user F \<in> set (listed (get_leads user (snd (post_lead E now user F s))))
          \<and> new_lead E now user F ''company'' = F ''company''
          \<and> new_lead E now user F ''contact'' = F ''contact''
          \<and> (\<forall>k\<in>set lead_fields. truthy (F k) \<longrightarrow> new_lead E now user F k = F k))"
proof -
  have t: "fst (post_task E now user F s) = Resp 201 (Item (new_task E now user F))"
    by (simp add: post_task_def Let_def)
  have p: "fst (post_project E now user F s) = Resp 201 (Item (new_project E now user F))"
    by (simp add: post_project_def Let_def)
  have l: "fst (post_lead E now user F s) = Resp 201 (Item (new_lead E now user F))"
    by (simp add: post_lead_def Let_def)
  note c = created_is_listed [OF assms, where E = E and now = now and F = F and s = s]
  note tf = new_task_fields [where E = E and now = now and user = user and F = F]
  note pf = new_project_fields [where E = E and now = now and user = user and F = F]
  note lf = new_lead_fields [where E = E and now = now and user = user and F = F]
  show ?thesis
    by (intro conjI t p l c tf pf lf)
qed

theorem C8_create_list_round_trip_witness:
  "in_team (Some alice) ''Sales''
   \<and> ''status'' \<in> set task_fields \<and> truthy (done_task ''status'')
   \<and> new_task stub_env 1000 (Some alice) done_task
        \<in> set (listed (get_tasks (Some alice)
                  (snd (post_task stub_env 1000 (Some alice) done_task init_store))))
   \<and> new_task stub_env 1000 (Some alice) done_task ''title'' = Some (JStr ''Follow up'')
   \<and> new_task stub_env 1000 (Some alice) done_task ''status'' = Some (JStr ''done'')"
proof -
  have k: "''status'' \<in> set task_fields"
    by (simp add: task_fields_def)
  have f: "done_task ''title'' = Some (JStr ''Follow up'')" "done_task ''status'' = Some (JStr ''done'')"
    by (simp_all add: done_task_def)
  have tr: "truthy (done_task ''status'')"
    by (simp add: f)
  note inst = C8_create_list_round_trip [OF in_team_alice, of stub_env 1000 done_task init_store]
  have 1: "new_task stub_env 1000 (Some alice) done_task
        \<in> set (listed (get_tasks (Some alice)
                  (snd (post_task stub_env 1000 (Some alice) done_task init_store))))"
    using inst by blast
  have 2: "new_task stub_env 1000 (Some alice) done_task ''title'' = Some (JStr ''Follow up'')"
    using inst f(1) by simp
  have "\<forall>k\<in>set task_fields. truthy (done_task k)
          \<longrightarrow> new_task stub_env 1000 (Some alice) done_task k = done_task k"
    using inst by blast
  then have 3: "new_task stub_env 1000 (Some alice) done_task ''status'' = Some (JStr ''done'')"
    using k tr f(2) by metis
  show ?thesis
    using in_team_alice k tr 1 2 3 by blast
qed


end
